theory Spec2Isabelle
  imports Complex_Main "HOL-Library.Char_ord" "HOL-Library.List_Lexorder" "HOL-Library.AList"
    "HOL-Library.Multiset"
begin

section \<open>Stock screening: numbers and exceptions\<close>

text \<open>
  The embedding follows \<^verbatim>\<open>SCRIPT_stock_screening.py\<close>. A Python \<^verbatim>\<open>float\<close> is a value of a type
  \<open>'f\<close> that is left open, and the arithmetic of the interpreter on it is a parameter: the
  record \<open>ops\<close> below holds the operators and builtins the script applies to floats. So what is
  proved of a function holds for the binary64 arithmetic of the interpreter, its rounding,
  infinities and NaN included, whatever these operations return. An optional number is an
  \<open>'f option\<close>, a Python \<^verbatim>\<open>str\<close> is a \<^typ>\<open>string\<close>, ordered as Python orders strings
  (lexicographically, a proper prefix first), a Python \<^verbatim>\<open>int\<close> is an \<^typ>\<open>int\<close> or a \<^typ>\<open>nat\<close>.
\<close>

subsection \<open>Exceptions\<close>

text \<open>
  Two exceptions can arise in the functions modelled. The operator \<^verbatim>\<open>**\<close> raises
  \<^verbatim>\<open>OverflowError\<close> when its result is out of range, and indexing a list out of range raises
  \<^verbatim>\<open>IndexError\<close>. A function that can raise returns a sum, the exception on the left.
  Every division of the script stands behind a test that its divisor is not zero, and every
  indexing other than the reading of the outlier labels behind a test of the length; the model
  keeps those tests and uses the total operations behind them.
\<close>

datatype py_error = IndexError | OverflowError

definition bind_err :: "py_error + 'a \<Rightarrow> ('a \<Rightarrow> py_error + 'b) \<Rightarrow> py_error + 'b" where
  "bind_err m f = (case m of Inl e \<Rightarrow> Inl e | Inr x \<Rightarrow> f x)"

text \<open>A comprehension \<^verbatim>\<open>[f(x) for x in xs]\<close> whose body can raise: the first exception ends it.\<close>

fun map_err :: "('a \<Rightarrow> py_error + 'b) \<Rightarrow> 'a list \<Rightarrow> py_error + 'b list" where
  "map_err f [] = Inr []"
| "map_err f (x # xs) = bind_err (f x) (\<lambda>y. bind_err (map_err f xs) (\<lambda>ys. Inr (y # ys)))"

subsection \<open>The arithmetic of floats\<close>

text \<open>
  The operators \<^verbatim>\<open>+ - * /\<close> and \<^verbatim>\<open>**\<close> (\<open>fpow\<close>, which gives \<open>None\<close> where \<^verbatim>\<open>**\<close> raises), the builtins \<^verbatim>\<open>abs\<close>, \<^verbatim>\<open>round(x, ndigits)\<close>
  and \<^verbatim>\<open>sum\<close>, the comparisons \<^verbatim>\<open><\<close>, \<^verbatim>\<open><=\<close> and \<^verbatim>\<open>==\<close>, and \<open>flit\<close>, the float that a
  numeric literal or an \<^verbatim>\<open>int\<close> operand denotes. The comparison \<^verbatim>\<open>x > y\<close> is \<open>flt y x\<close> and
  \<^verbatim>\<open>x != y\<close> is the negation of \<open>feq x y\<close>, as for Python's floats; a float is true in a
  condition when it is \<^verbatim>\<open>!= 0\<close>.
\<close>

record 'f float_ops =
  fadd :: "'f \<Rightarrow> 'f \<Rightarrow> 'f"
  fsub :: "'f \<Rightarrow> 'f \<Rightarrow> 'f"
  fmul :: "'f \<Rightarrow> 'f \<Rightarrow> 'f"
  fdiv :: "'f \<Rightarrow> 'f \<Rightarrow> 'f"
  fpow :: "'f \<Rightarrow> 'f \<Rightarrow> 'f option"
  fabs :: "'f \<Rightarrow> 'f"
  fround :: "'f \<Rightarrow> nat \<Rightarrow> 'f"
  fsum :: "'f list \<Rightarrow> 'f"
  flit :: "real \<Rightarrow> 'f"
  flt :: "'f \<Rightarrow> 'f \<Rightarrow> bool"
  fle :: "'f \<Rightarrow> 'f \<Rightarrow> bool"
  feq :: "'f \<Rightarrow> 'f \<Rightarrow> bool"

text \<open>
  \<^verbatim>\<open>x ** y\<close> for an exponent that is positive, as all exponents of the script are: the only
  exception it can raise is \<^verbatim>\<open>OverflowError\<close>.
\<close>

definition py_pow :: "'f float_ops \<Rightarrow> 'f \<Rightarrow> 'f \<Rightarrow> py_error + 'f" where
  "py_pow ops x y = (case fpow ops x y of None \<Rightarrow> Inl OverflowError | Some z \<Rightarrow> Inr z)"

text \<open>\<^verbatim>\<open>x == 0\<close>; its negation is \<^verbatim>\<open>x != 0\<close> and the truth of \<open>x\<close> in a condition.\<close>

definition is_zero :: "'f float_ops \<Rightarrow> 'f \<Rightarrow> bool" where
  "is_zero ops x \<longleftrightarrow> feq ops x (flit ops 0)"

text \<open>\<^verbatim>\<open>x > 0\<close> and \<^verbatim>\<open>x <= 0\<close>\<close>

definition is_positive :: "'f float_ops \<Rightarrow> 'f \<Rightarrow> bool" where
  "is_positive ops x \<longleftrightarrow> flt ops (flit ops 0) x"

definition is_nonpositive :: "'f float_ops \<Rightarrow> 'f \<Rightarrow> bool" where
  "is_nonpositive ops x \<longleftrightarrow> fle ops x (flit ops 0)"

text \<open>\<^verbatim>\<open>sum(xs) / len(xs)\<close>\<close>

definition fmean :: "'f float_ops \<Rightarrow> 'f list \<Rightarrow> 'f" where
  "fmean ops xs = fdiv ops (fsum ops xs) (flit ops (real (length xs)))"

text \<open>\<^verbatim>\<open>round(x * 100, 2)\<close>\<close>

definition percent_of :: "'f float_ops \<Rightarrow> 'f \<Rightarrow> 'f" where
  "percent_of ops x = fround ops (fmul ops x (flit ops 100)) 2"

section \<open>Helper functions of the script\<close>

text \<open>\<^verbatim>\<open>[v for v in values if v is not None]\<close>\<close>

definition clean_values :: "'a option list \<Rightarrow> 'a list" where
  "clean_values values = map the (filter (\<lambda>v. v \<noteq> None) values)"

text \<open>\<^verbatim>\<open>[(i, v) for i, v in enumerate(values) if v is not None]\<close>\<close>

definition clean_indexed :: "'a option list \<Rightarrow> (nat \<times> 'a) list" where
  "clean_indexed values =
     map (\<lambda>(i, v). (i, the v)) (filter (\<lambda>(i, v). v \<noteq> None) (List.enumerate 0 values))"

definition safe_divide :: "'f float_ops \<Rightarrow> 'f option \<Rightarrow> 'f option \<Rightarrow> 'f option" where
  "safe_divide ops num denom =
     (case (num, denom) of
        (Some n, Some d) \<Rightarrow> if is_zero ops d then None else Some (fdiv ops n d)
      | _ \<Rightarrow> None)"

definition pct :: "'f float_ops \<Rightarrow> 'f option \<Rightarrow> 'f option \<Rightarrow> 'f option" where
  "pct ops num denom =
     (case safe_divide ops num denom of
        Some result \<Rightarrow> Some (percent_of ops result)
      | None \<Rightarrow> None)"

definition calculate_cagr :: "'f float_ops \<Rightarrow> 'f option list \<Rightarrow> py_error + 'f option" where
  "calculate_cagr ops values =
     (let clean = clean_values values in
      if length clean < 2 \<or> is_nonpositive ops (hd clean) \<or> is_nonpositive ops (last clean)
      then Inr None
      else
        let years = length clean - 1 in
        bind_err
          (py_pow ops (fdiv ops (last clean) (hd clean)) (fdiv ops (flit ops 1) (flit ops (real years))))
          (\<lambda>growth. Inr (Some (percent_of ops (fsub ops growth (flit ops 1))))))"

definition calculate_avg :: "'f float_ops \<Rightarrow> 'f option list \<Rightarrow> 'f option" where
  "calculate_avg ops values =
     (let clean = clean_values values in
      if clean \<noteq> [] then Some (fround ops (fmean ops clean) 2) else None)"

text \<open>\<^verbatim>\<open>sum((x - avg) ** 2 for x in xs) / len(xs)\<close>\<close>

definition fvariance :: "'f float_ops \<Rightarrow> 'f \<Rightarrow> 'f list \<Rightarrow> py_error + 'f" where
  "fvariance ops avg xs =
     bind_err (map_err (\<lambda>x. py_pow ops (fsub ops x avg) (flit ops 2)) xs)
       (\<lambda>squares. Inr (fdiv ops (fsum ops squares) (flit ops (real (length xs)))))"

definition calculate_cv :: "'f float_ops \<Rightarrow> 'f option list \<Rightarrow> py_error + 'f option" where
  "calculate_cv ops values =
     (let clean = clean_values values in
      if length clean < 2 then Inr None
      else
        let avg = fmean ops clean in
        if is_zero ops avg then Inr None
        else
          bind_err (fvariance ops avg clean)
            (\<lambda>variance. bind_err (py_pow ops variance (flit ops (1 / 2)))
               (\<lambda>std_dev. Inr (Some (percent_of ops (fdiv ops std_dev (fabs ops avg)))))))"

definition calculate_slope :: "'f float_ops \<Rightarrow> 'f option list \<Rightarrow> 'f option" where
  "calculate_slope ops values =
     (let clean = clean_indexed values in
      if length clean < 2 then None
      else
        let n = int (length clean);
            sum_x = sum_list (map (\<lambda>(i, v). int i) clean);
            sum_y = fsum ops (map (\<lambda>(i, v). v) clean);
            sum_xy = fsum ops (map (\<lambda>(i, v). fmul ops (flit ops (real i)) v) clean);
            sum_x2 = sum_list (map (\<lambda>(i, v). int i * int i) clean);
            denominator = n * sum_x2 - sum_x * sum_x
        in if denominator = 0 then None
           else Some (fround ops
                  (fdiv ops
                     (fsub ops (fmul ops (flit ops (of_int n)) sum_xy)
                        (fmul ops (flit ops (of_int sum_x)) sum_y))
                     (flit ops (of_int denominator))) 2))"

record 'f delta =
  absolute :: "'f option"
  percent :: "'f option"

definition calculate_recent_delta :: "'f float_ops \<Rightarrow> 'f option list \<Rightarrow> 'f delta" where
  "calculate_recent_delta ops values =
     (let clean = clean_values values in
      if length clean < 2 then \<lparr>absolute = None, percent = None\<rparr>
      else
        let recent = last clean; prior = last (butlast clean) in
        \<lparr>absolute = Some (fround ops (fsub ops recent prior) 2),
         percent =
           (if \<not> is_zero ops prior
            then Some (percent_of ops (fdiv ops (fsub ops recent prior) (fabs ops prior)))
            else None)\<rparr>)"

definition detect_outliers :: "'f float_ops \<Rightarrow> 'f option list \<Rightarrow> py_error + nat list" where
  "detect_outliers ops values =
     (let clean = clean_indexed values in
      if length clean < 3 then Inr []
      else
        let vals = map snd clean;
            mean = fmean ops vals
        in bind_err (fvariance ops mean vals)
             (\<lambda>variance. bind_err (py_pow ops variance (flit ops (1 / 2)))
                (\<lambda>std_dev.
                   let lower = fsub ops mean (fmul ops (flit ops 2) std_dev);
                       upper = fadd ops mean (fmul ops (flit ops 2) std_dev)
                   in Inr (map fst (filter (\<lambda>(i, v). flt ops v lower \<or> flt ops upper v) clean)))))"

section \<open>Payloads\<close>

text \<open>
  The Alpha Vantage payloads are JSON objects whose leaves are strings. A field of an entry is a
  \<^typ>\<open>string option\<close>, \<open>None\<close> for a key that is absent (what \<^verbatim>\<open>dict.get\<close> returns then);
  a sequence that is absent from the payload is the empty list (the default of
  \<^verbatim>\<open>.get(key, [])\<close>). A payload that was not fetched is \<open>None\<close>.
\<close>

record earnings_entry =
  ee_fiscalDateEnding :: "string option"
  ee_reportedEPS :: "string option"
  ee_estimatedEPS :: "string option"

record earnings_payload =
  quarterlyEarnings :: "earnings_entry list"
  annualEarnings :: "earnings_entry list"

record income_report =
  ir_fiscalDateEnding :: "string option"
  ir_totalRevenue :: "string option"
  ir_operatingIncome :: "string option"

record income_payload =
  annualReports :: "income_report list"
  quarterlyReports :: "income_report list"

text \<open>
  The monthly series maps a date string to the \<^verbatim>\<open>'5. adjusted close'\<close> field of its bar,
  in the payload's order (the order in which the dictionary is iterated).
\<close>

type_synonym time_series = "(string \<times> string option) list"

record price_payload =
  monthly_adjusted :: time_series

definition YEARS_TO_ANALYZE :: nat where
  "YEARS_TO_ANALYZE = 5"

text \<open>
  \<^verbatim>\<open>safe_float\<close>. The builtin \<^verbatim>\<open>float\<close> is a parameter: it gives \<open>None\<close> where Python
  raises \<^verbatim>\<open>ValueError\<close>, which the function catches.
\<close>

definition safe_float :: "(string \<Rightarrow> 'f option) \<Rightarrow> string option \<Rightarrow> 'f option" where
  "safe_float pyfloat v =
     (case v of
        None \<Rightarrow> None
      | Some s \<Rightarrow> if s = ''None'' \<or> s = '''' then None else pyfloat s)"

text \<open>\<^verbatim>\<open>entry.get('fiscalDateEnding', '')\<close>\<close>

definition get_or_empty :: "string option \<Rightarrow> string" where
  "get_or_empty v = (case v of None \<Rightarrow> '''' | Some s \<Rightarrow> s)"

text \<open>\<^verbatim>\<open>s.startswith(p)\<close>\<close>

definition startswith :: "string \<Rightarrow> string \<Rightarrow> bool" where
  "startswith s p \<longleftrightarrow> take (length p) s = p"

section \<open>The statistics common to the calculators\<close>

definition py_index :: "'a list \<Rightarrow> nat \<Rightarrow> py_error + 'a" where
  "py_index xs i = (if i < length xs then Inr (xs ! i) else Inl IndexError)"

text \<open>\<^verbatim>\<open>[years[i] for i in detect_outliers(vals)] if vals else []\<close>\<close>

definition outlier_labels :: "'f float_ops \<Rightarrow> string list \<Rightarrow> 'f list \<Rightarrow> py_error + string list" where
  "outlier_labels ops years vals =
     (if vals \<noteq> []
      then bind_err (detect_outliers ops (map Some vals)) (\<lambda>idxs. map_err (py_index years) idxs)
      else Inr [])"

text \<open>
  Every calculator ends with a dictionary display whose entries are evaluated in order. Three
  of them can raise: \<^verbatim>\<open>calculate_cagr(series)\<close>, then \<^verbatim>\<open>calculate_cv(series)\<close>, then the
  outlier labels of the annual values; the entries between them cannot. The three results, or
  the first exception:
\<close>

definition fallible_stats ::
  "'f float_ops \<Rightarrow> 'f list \<Rightarrow> string list \<Rightarrow> 'f list
     \<Rightarrow> py_error + ('f option \<times> 'f option \<times> string list)"
where
  "fallible_stats ops series years vals =
     bind_err (calculate_cagr ops (map Some series))
       (\<lambda>cagr. bind_err (calculate_cv ops (map Some series))
          (\<lambda>cv. bind_err (outlier_labels ops years vals)
             (\<lambda>labels. Inr (cagr, cv, labels))))"

section \<open>EPS\<close>

record 'f beat_miss =
  bm_date :: "string option"
  bm_reported :: 'f
  bm_estimated :: 'f
  bm_surprise :: 'f
  bm_surprise_pct :: "'f option"

record 'f eps_stats =
  eps_latest :: 'f
  eps_latest_date :: "string option"
  eps_ttm :: "'f option"
  eps_vs_prev_q_pct :: "'f option"
  eps_vs_yoy_pct :: "'f option"
  eps_mean_5yr :: "'f option"
  eps_cagr_5yr :: "'f option"
  eps_cv :: "'f option"
  eps_slope :: "'f option"
  eps_recent_delta :: "'f delta"
  eps_outlier_years :: "string list"
  eps_annual_years :: "string list"
  eps_annual_values :: "'f list"
  eps_years_of_data :: nat
  eps_beat_miss_history :: "'f beat_miss list"

text \<open>
  \<^verbatim>\<open>round(((a - b) / abs(b)) * 100, 2)\<close>, the percentage change of \<open>a\<close> against the magnitude
  of \<open>b\<close>, which the source writes out at each use.
\<close>

definition pct_change_abs :: "'f float_ops \<Rightarrow> 'f \<Rightarrow> 'f \<Rightarrow> 'f" where
  "pct_change_abs ops a b = percent_of ops (fdiv ops (fsub ops a b) (fabs ops b))"

text \<open>
  The change of \<open>latest\<close> against the EPS of an earlier quarter, absent when that EPS is absent
  or zero (the source has it twice, for the previous quarter and for the quarter a year ago).
\<close>

definition eps_change :: "'f float_ops \<Rightarrow> 'f \<Rightarrow> 'f option \<Rightarrow> 'f option" where
  "eps_change ops latest_eps other =
     (case other of
        None \<Rightarrow> None
      | Some prev \<Rightarrow>
          if \<not> is_zero ops prev then Some (pct_change_abs ops latest_eps prev) else None)"

text \<open>TTM EPS: the sum of the last four quarters, when there are four and all are present.\<close>

definition ttm_of :: "'f float_ops \<Rightarrow> (string \<Rightarrow> 'f option) \<Rightarrow> earnings_entry list \<Rightarrow> 'f option" where
  "ttm_of ops pyfloat quarterly =
     (if 4 \<le> length quarterly then
        let ttm_values = map (\<lambda>q. safe_float pyfloat (ee_reportedEPS q)) (take 4 quarterly) in
        if list_all (\<lambda>v. v \<noteq> None) ttm_values
        then Some (fround ops (fsum ops (map the ttm_values)) 2) else None
      else None)"

text \<open>
  The loop over \<^verbatim>\<open>annual[:YEARS_TO_ANALYZE]\<close>: one step appends to both lists or to neither.
  The state is \<open>(annual_eps, annual_years)\<close>.
\<close>

definition eps_annual_step ::
  "(string \<Rightarrow> 'f option) \<Rightarrow> earnings_entry \<Rightarrow> 'f list \<times> string list \<Rightarrow> 'f list \<times> string list"
where
  "eps_annual_step pyfloat entry st =
     (let eps = safe_float pyfloat (ee_reportedEPS entry);
          year = take 4 (get_or_empty (ee_fiscalDateEnding entry))
      in if eps \<noteq> None \<and> year \<noteq> '''' then (fst st @ [the eps], snd st @ [year]) else st)"

definition beat_miss_step ::
  "'f float_ops \<Rightarrow> (string \<Rightarrow> 'f option) \<Rightarrow> earnings_entry \<Rightarrow> 'f beat_miss list \<Rightarrow> 'f beat_miss list"
where
  "beat_miss_step ops pyfloat q acc =
     (case (safe_float pyfloat (ee_reportedEPS q), safe_float pyfloat (ee_estimatedEPS q)) of
        (Some reported, Some estimated) \<Rightarrow>
          acc @ [\<lparr>bm_date = ee_fiscalDateEnding q,
                  bm_reported = reported,
                  bm_estimated = estimated,
                  bm_surprise = fround ops (fsub ops reported estimated) 4,
                  bm_surprise_pct =
                    (if \<not> is_zero ops estimated
                     then Some (pct_change_abs ops reported estimated) else None)\<rparr>]
      | _ \<Rightarrow> acc)"

definition calculate_eps_stats ::
  "'f float_ops \<Rightarrow> (string \<Rightarrow> 'f option) \<Rightarrow> earnings_payload option
     \<Rightarrow> py_error + 'f eps_stats option"
where
  "calculate_eps_stats ops pyfloat earnings_data =
     (case earnings_data of
        None \<Rightarrow> Inr None
      | Some d \<Rightarrow>
          let quarterly = quarterlyEarnings d; annual = annualEarnings d in
          if quarterly = [] \<or> length quarterly < 2 then Inr None
          else (case safe_float pyfloat (ee_reportedEPS (quarterly ! 0)) of
            None \<Rightarrow> Inr None
          | Some latest_eps \<Rightarrow>
              let vs_prev_q =
                    (if 1 < length quarterly
                     then eps_change ops latest_eps (safe_float pyfloat (ee_reportedEPS (quarterly ! 1)))
                     else None);
                  vs_yoy =
                    (if 4 < length quarterly
                     then eps_change ops latest_eps (safe_float pyfloat (ee_reportedEPS (quarterly ! 4)))
                     else None);
                  ttm_eps = ttm_of ops pyfloat quarterly;
                  series = fold (eps_annual_step pyfloat) (take YEARS_TO_ANALYZE annual) ([], []);
                  annual_eps = rev (fst series);
                  annual_years = rev (snd series);
                  beat_miss = fold (beat_miss_step ops pyfloat) (take 4 quarterly) []
              in bind_err (fallible_stats ops annual_eps annual_years annual_eps)
                   (\<lambda>(cagr, cv, outlier_years).
                     Inr (Some
                       \<lparr>eps_latest = latest_eps,
                        eps_latest_date = ee_fiscalDateEnding (quarterly ! 0),
                        eps_ttm = ttm_eps,
                        eps_vs_prev_q_pct = vs_prev_q,
                        eps_vs_yoy_pct = vs_yoy,
                        eps_mean_5yr = calculate_avg ops (map Some annual_eps),
                        eps_cagr_5yr = cagr,
                        eps_cv = cv,
                        eps_slope = calculate_slope ops (map Some annual_eps),
                        eps_recent_delta = calculate_recent_delta ops (map Some annual_eps),
                        eps_outlier_years = outlier_years,
                        eps_annual_years = annual_years,
                        eps_annual_values = annual_eps,
                        eps_years_of_data = length annual_eps,
                        eps_beat_miss_history = beat_miss\<rparr>))))"

section \<open>Revenue and operating margin\<close>

text \<open>
  Both calculators read \<^verbatim>\<open>datetime.now().year\<close>; the year of the run, as the string
  \<^verbatim>\<open>str(datetime.now().year)\<close>, is the parameter \<open>current_year\<close>.
\<close>

record 'f revenue_stats =
  rev_latest :: 'f
  rev_latest_year :: "string option"
  rev_vs_yoy_pct :: "'f option"
  rev_vs_prev_q_pct :: "'f option"
  rev_mean_5yr :: "'f option"
  rev_cagr_5yr :: "'f option"
  rev_cv :: "'f option"
  rev_slope :: "'f option"
  rev_recent_delta :: "'f delta"
  rev_outlier_years :: "string list"
  rev_annual_years :: "string list"
  rev_annual_values :: "'f list"
  rev_years_of_data :: nat
  rev_ytd_annualized :: "'f option"
  rev_ytd_num_quarters :: nat
  rev_quarterly_latest :: "'f option"
  rev_quarterly_latest_date :: "string option"

definition rev_annual_step ::
  "(string \<Rightarrow> 'f option) \<Rightarrow> income_report \<Rightarrow> 'f list \<times> string list \<Rightarrow> 'f list \<times> string list"
where
  "rev_annual_step pyfloat r st =
     (let rev = safe_float pyfloat (ir_totalRevenue r);
          year = take 4 (get_or_empty (ir_fiscalDateEnding r))
      in if rev \<noteq> None \<and> year \<noteq> '''' then (fst st @ [the rev], snd st @ [year]) else st)"

text \<open>
  \<^verbatim>\<open>safe_float(r.get(key, 0)) or 0\<close>: the \<^verbatim>\<open>int\<close> zero for a field that is absent, does not
  parse or parses to a float that is zero.
\<close>

definition float_or_zero :: "'f float_ops \<Rightarrow> (string \<Rightarrow> 'f option) \<Rightarrow> string option \<Rightarrow> 'f" where
  "float_or_zero ops pyfloat v =
     (case safe_float pyfloat v of
        None \<Rightarrow> flit ops 0
      | Some x \<Rightarrow> if is_zero ops x then flit ops 0 else x)"

definition ytd_quarters_of :: "string \<Rightarrow> income_report list \<Rightarrow> income_report list" where
  "ytd_quarters_of current_year quarterly_reports =
     filter (\<lambda>r. startswith (get_or_empty (ir_fiscalDateEnding r)) current_year) quarterly_reports"

definition calculate_revenue_stats ::
  "'f float_ops \<Rightarrow> (string \<Rightarrow> 'f option) \<Rightarrow> string \<Rightarrow> income_payload option
     \<Rightarrow> py_error + 'f revenue_stats option"
where
  "calculate_revenue_stats ops pyfloat current_year income_data =
     (case income_data of
        None \<Rightarrow> Inr None
      | Some d \<Rightarrow>
          let annual_reports = annualReports d; quarterly_reports = quarterlyReports d in
          if annual_reports = [] then Inr None
          else
            let series = fold (rev_annual_step pyfloat) (take YEARS_TO_ANALYZE annual_reports) ([], []);
                annual_rev = rev (fst series);
                annual_years = rev (snd series)
            in if length annual_rev < 2 then Inr None
               else
                 let latest = last annual_rev;
                     prior = last (butlast annual_rev);
                     vs_yoy =
                       (if 2 \<le> length annual_rev \<and> \<not> is_zero ops prior
                        then Some (pct_change_abs ops latest prior) else None);
                     vs_prev_q =
                       (if 2 \<le> length quarterly_reports then
                          (case (safe_float pyfloat (ir_totalRevenue (quarterly_reports ! 0)),
                                 safe_float pyfloat (ir_totalRevenue (quarterly_reports ! 1))) of
                             (Some q_latest, Some q_prev) \<Rightarrow>
                               if \<not> is_zero ops q_latest \<and> \<not> is_zero ops q_prev \<and> \<not> is_zero ops q_prev
                               then Some (pct_change_abs ops q_latest q_prev)
                               else None
                           | _ \<Rightarrow> None)
                        else None);
                     ytd_quarters = ytd_quarters_of current_year quarterly_reports;
                     ytd_num_quarters = (if ytd_quarters \<noteq> [] then length ytd_quarters else 0);
                     ytd_annualized =
                       (if ytd_quarters \<noteq> [] then
                          Some (fmul ops
                                  (fsum ops (map (\<lambda>r. float_or_zero ops pyfloat (ir_totalRevenue r))
                                               ytd_quarters))
                                  (fdiv ops (flit ops 4) (flit ops (real (length ytd_quarters)))))
                        else None)
                 in bind_err (fallible_stats ops annual_rev annual_years annual_rev)
                      (\<lambda>(cagr, cv, outlier_years).
                        Inr (Some
                          \<lparr>rev_latest = latest,
                           rev_latest_year = (if annual_years \<noteq> [] then Some (last annual_years) else None),
                           rev_vs_yoy_pct = vs_yoy,
                           rev_vs_prev_q_pct = vs_prev_q,
                           rev_mean_5yr = calculate_avg ops (map Some annual_rev),
                           rev_cagr_5yr = cagr,
                           rev_cv = cv,
                           rev_slope = calculate_slope ops (map Some annual_rev),
                           rev_recent_delta = calculate_recent_delta ops (map Some annual_rev),
                           rev_outlier_years = outlier_years,
                           rev_annual_years = annual_years,
                           rev_annual_values = annual_rev,
                           rev_years_of_data = length annual_rev,
                           rev_ytd_annualized = ytd_annualized,
                           rev_ytd_num_quarters = ytd_num_quarters,
                           rev_quarterly_latest =
                             (if quarterly_reports \<noteq> []
                              then safe_float pyfloat (ir_totalRevenue (quarterly_reports ! 0)) else None),
                           rev_quarterly_latest_date =
                             (if quarterly_reports \<noteq> []
                              then ir_fiscalDateEnding (quarterly_reports ! 0) else None)\<rparr>)))"

record 'f margin_stats =
  margin_latest :: 'f
  margin_latest_year :: "string option"
  margin_vs_yoy_pct :: "'f option"
  margin_vs_prev_q_pct :: "'f option"
  margin_mean_5yr :: "'f option"
  margin_cagr_5yr :: "'f option"
  margin_cv :: "'f option"
  margin_slope :: "'f option"
  margin_recent_delta :: "'f delta"
  margin_outlier_years :: "string list"
  margin_annual_years :: "string list"
  margin_annual_values :: "'f list"
  margin_years_of_data :: nat
  margin_ytd_margin :: "'f option"
  margin_ytd_num_quarters :: nat

text \<open>The operating margin of one report: \<^verbatim>\<open>pct(oi, rev)\<close> of its two parsed fields.\<close>

definition report_margin :: "'f float_ops \<Rightarrow> (string \<Rightarrow> 'f option) \<Rightarrow> income_report \<Rightarrow> 'f option" where
  "report_margin ops pyfloat r =
     pct ops (safe_float pyfloat (ir_operatingIncome r)) (safe_float pyfloat (ir_totalRevenue r))"

definition margin_annual_step ::
  "'f float_ops \<Rightarrow> (string \<Rightarrow> 'f option) \<Rightarrow> income_report \<Rightarrow> 'f list \<times> string list
     \<Rightarrow> 'f list \<times> string list"
where
  "margin_annual_step ops pyfloat r st =
     (let margin = report_margin ops pyfloat r;
          year = take 4 (get_or_empty (ir_fiscalDateEnding r))
      in if margin \<noteq> None \<and> year \<noteq> '''' then (fst st @ [the margin], snd st @ [year]) else st)"

definition calculate_margin_stats ::
  "'f float_ops \<Rightarrow> (string \<Rightarrow> 'f option) \<Rightarrow> string \<Rightarrow> income_payload option
     \<Rightarrow> py_error + 'f margin_stats option"
where
  "calculate_margin_stats ops pyfloat current_year income_data =
     (case income_data of
        None \<Rightarrow> Inr None
      | Some d \<Rightarrow>
          let annual_reports = annualReports d; quarterly_reports = quarterlyReports d in
          if annual_reports = [] then Inr None
          else
            let series = fold (margin_annual_step ops pyfloat) (take YEARS_TO_ANALYZE annual_reports)
                           ([], []);
                annual_margins = rev (fst series);
                annual_years = rev (snd series)
            in if length annual_margins < 2 then Inr None
               else
                 let latest = last annual_margins;
                     vs_yoy =
                       (if 2 \<le> length annual_margins
                        then Some (fround ops (fsub ops latest (last (butlast annual_margins))) 2)
                        else None);
                     vs_prev_q =
                       (if 2 \<le> length quarterly_reports then
                          (case (report_margin ops pyfloat (quarterly_reports ! 0),
                                 report_margin ops pyfloat (quarterly_reports ! 1)) of
                             (Some q_latest_margin, Some q_prev_margin) \<Rightarrow>
                               Some (fround ops (fsub ops q_latest_margin q_prev_margin) 2)
                           | _ \<Rightarrow> None)
                        else None);
                     ytd_quarters = ytd_quarters_of current_year quarterly_reports;
                     ytd_num_quarters = (if ytd_quarters \<noteq> [] then length ytd_quarters else 0);
                     ytd_margin =
                       (if ytd_quarters \<noteq> [] then
                          pct ops
                            (Some (fsum ops (map (\<lambda>r. float_or_zero ops pyfloat (ir_operatingIncome r))
                                               ytd_quarters)))
                            (Some (fsum ops (map (\<lambda>r. float_or_zero ops pyfloat (ir_totalRevenue r))
                                               ytd_quarters)))
                        else None)
                 in bind_err (fallible_stats ops annual_margins annual_years annual_margins)
                      (\<lambda>(cagr, cv, outlier_years).
                        Inr (Some
                          \<lparr>margin_latest = latest,
                           margin_latest_year = (if annual_years \<noteq> [] then Some (last annual_years) else None),
                           margin_vs_yoy_pct = vs_yoy,
                           margin_vs_prev_q_pct = vs_prev_q,
                           margin_mean_5yr = calculate_avg ops (map Some annual_margins),
                           margin_cagr_5yr = cagr,
                           margin_cv = cv,
                           margin_slope = calculate_slope ops (map Some annual_margins),
                           margin_recent_delta = calculate_recent_delta ops (map Some annual_margins),
                           margin_outlier_years = outlier_years,
                           margin_annual_years = annual_years,
                           margin_annual_values = annual_margins,
                           margin_years_of_data = length annual_margins,
                           margin_ytd_margin = ytd_margin,
                           margin_ytd_num_quarters = ytd_num_quarters\<rparr>)))"

section \<open>Price\<close>

record 'f price_stats =
  price_current :: 'f
  price_current_date :: string
  price_mean_5yr :: "'f option"
  price_cagr_5yr :: "'f option"
  price_cv :: "'f option"
  price_slope :: "'f option"
  price_vs_3mo_pct :: "'f option"
  price_vs_yoy_pct :: "'f option"
  price_high_52w :: "'f option"
  price_low_52w :: "'f option"
  price_vs_52w_high_pct :: "'f option"
  price_vs_52w_low_pct :: "'f option"
  price_months_of_data :: nat
  price_annual_years :: "string list"
  price_annual_values :: "'f list"
  price_annual_recent_delta :: "'f delta"
  price_annual_outliers :: "string list"

text \<open>The loop collecting \<open>(date_str, close)\<close> for every bar whose adjusted close parses.\<close>

definition valid_closes :: "(string \<Rightarrow> 'f option) \<Rightarrow> time_series \<Rightarrow> (string \<times> 'f) list" where
  "valid_closes pyfloat ts =
     List.map_filter (\<lambda>(date_str, v). map_option (Pair date_str) (safe_float pyfloat v)) ts"

text \<open>
  \<^verbatim>\<open>monthly.sort(key=lambda x: x[0], reverse=True)\<close>: a stable sort, descending; Python
  reverses, sorts ascending and reverses again.
\<close>

definition sort_newest_first :: "(string \<times> 'f) list \<Rightarrow> (string \<times> 'f) list" where
  "sort_newest_first monthly = rev (sort_key fst (rev monthly))"

text \<open>
  \<^verbatim>\<open>max(xs)\<close> and \<^verbatim>\<open>min(xs)\<close> of a list that is not empty: the builtin keeps its first
  item and replaces it by a later item that compares greater (for \<^verbatim>\<open>min\<close>: less).
\<close>

definition py_max :: "'f float_ops \<Rightarrow> 'f list \<Rightarrow> 'f" where
  "py_max ops xs = fold (\<lambda>x m. if flt ops m x then x else m) (tl xs) (hd xs)"

definition py_min :: "'f float_ops \<Rightarrow> 'f list \<Rightarrow> 'f" where
  "py_min ops xs = fold (\<lambda>x m. if flt ops x m then x else m) (tl xs) (hd xs)"

text \<open>
  The percentage change of \<open>current\<close> against a base that is not zero:
  \<^verbatim>\<open>round(((current - base) / base) * 100, 2)\<close>, which the source writes out at each use.
\<close>

definition pct_change :: "'f float_ops \<Rightarrow> 'f \<Rightarrow> 'f \<Rightarrow> 'f" where
  "pct_change ops current base = percent_of ops (fdiv ops (fsub ops current base) base)"

text \<open>
  The dictionary \<^verbatim>\<open>annual_prices\<close> is an association list with distinct keys; an assignment
  \<^verbatim>\<open>annual_prices[year] = close\<close> is \<^const>\<open>AList.update\<close>.
\<close>

definition annual_price_step :: "string \<times> 'f \<Rightarrow> (string \<times> 'f) list \<Rightarrow> (string \<times> 'f) list" where
  "annual_price_step bar annual_prices =
     (let date_str = fst bar; close = snd bar;
          year = take 4 date_str;
          month = take 2 (drop 5 date_str)
      in if month = ''12'' then AList.update year close annual_prices else annual_prices)"

definition annual_prices_of :: "(string \<times> 'f) list \<Rightarrow> (string \<times> 'f) list" where
  "annual_prices_of monthly =
     (let annual_prices = fold annual_price_step (sort_key fst monthly) [];
          current_year = take 4 (fst (monthly ! 0))
      in if current_year \<notin> set (map fst annual_prices)
         then AList.update current_year (snd (monthly ! 0)) annual_prices
         else annual_prices)"

text \<open>\<^verbatim>\<open>xs[-n:]\<close>\<close>

definition last_n :: "nat \<Rightarrow> 'a list \<Rightarrow> 'a list" where
  "last_n n xs = drop (length xs - n) xs"

definition calculate_price_stats ::
  "'f float_ops \<Rightarrow> (string \<Rightarrow> 'f option) \<Rightarrow> price_payload option
     \<Rightarrow> py_error + 'f price_stats option"
where
  "calculate_price_stats ops pyfloat price_data =
     (case price_data of
        None \<Rightarrow> Inr None
      | Some d \<Rightarrow>
          let time_series = monthly_adjusted d in
          if time_series = [] then Inr None
          else
            let sorted_monthly = sort_newest_first (valid_closes pyfloat time_series) in
            if length sorted_monthly < 2 then Inr None
            else
              let monthly = take 60 sorted_monthly;
                  closes = map snd monthly;
                  dates = map fst monthly;
                  current = closes ! 0;
                  vs_3mo =
                    (if 3 < length closes \<and> \<not> is_zero ops (closes ! 3)
                     then Some (pct_change ops current (closes ! 3)) else None);
                  vs_yoy =
                    (if 12 < length closes \<and> \<not> is_zero ops (closes ! 12)
                     then Some (pct_change ops current (closes ! 12)) else None);
                  last_12 = take (min 12 (length closes)) closes;
                  high_52w = (if last_12 \<noteq> [] then Some (py_max ops last_12) else None);
                  low_52w = (if last_12 \<noteq> [] then Some (py_min ops last_12) else None);
                  closes_chrono = rev closes;
                  annual_prices = annual_prices_of monthly;
                  sorted_years = last_n YEARS_TO_ANALYZE (sort (map fst annual_prices));
                  annual_values = map (\<lambda>y. the (map_of annual_prices y)) sorted_years
              in bind_err (fallible_stats ops closes_chrono sorted_years annual_values)
                   (\<lambda>(cagr, cv, annual_outliers).
                     Inr (Some
                       \<lparr>price_current = current,
                        price_current_date = dates ! 0,
                        price_mean_5yr = calculate_avg ops (map Some closes_chrono),
                        price_cagr_5yr = cagr,
                        price_cv = cv,
                        price_slope = calculate_slope ops (map Some closes_chrono),
                        price_vs_3mo_pct = vs_3mo,
                        price_vs_yoy_pct = vs_yoy,
                        price_high_52w = high_52w,
                        price_low_52w = low_52w,
                        price_vs_52w_high_pct =
                          (case high_52w of
                             Some h \<Rightarrow>
                               if \<not> is_zero ops h \<and> \<not> is_zero ops h
                               then Some (pct_change ops current h) else None
                           | None \<Rightarrow> None),
                        price_vs_52w_low_pct =
                          (case low_52w of
                             Some l \<Rightarrow>
                               if \<not> is_zero ops l \<and> \<not> is_zero ops l
                               then Some (pct_change ops current l) else None
                           | None \<Rightarrow> None),
                        price_months_of_data = length closes,
                        price_annual_years = sorted_years,
                        price_annual_values = annual_values,
                        price_annual_recent_delta = calculate_recent_delta ops (map Some annual_values),
                        price_annual_outliers = annual_outliers\<rparr>)))"

section \<open>P/E\<close>

record 'f pe_stats =
  pe_trailing_pe :: "'f option"
  pe_current_price :: 'f
  pe_ttm_eps :: "'f option"
  pe_mean_5yr :: "'f option"
  pe_cagr_5yr :: "'f option"
  pe_cv :: "'f option"
  pe_slope :: "'f option"
  pe_vs_yoy_pct :: "'f option"
  pe_vs_5yr_avg_pct :: "'f option"
  pe_recent_delta :: "'f delta"
  pe_outlier_years :: "string list"
  pe_annual_years :: "string list"
  pe_annual_values :: "'f list"
  pe_years_of_data :: nat

text \<open>\<^verbatim>\<open>dict(zip(keys, vals))\<close>: a later pair replaces an earlier one with the same key.\<close>

definition dict_zip :: "string list \<Rightarrow> 'f list \<Rightarrow> (string \<times> 'f) list" where
  "dict_zip keys vals = fold (\<lambda>kv. AList.update (fst kv) (snd kv)) (zip keys vals) []"

text \<open>
  One step of the loop over \<^verbatim>\<open>common_years\<close>, on the state \<open>(pe_values, pe_years)\<close>. The values
  of both dictionaries are floats, so the two tests \<^verbatim>\<open>is not None\<close> hold.
\<close>

definition pe_step ::
  "'f float_ops \<Rightarrow> (string \<times> 'f) list \<Rightarrow> (string \<times> 'f) list \<Rightarrow> string \<Rightarrow> 'f list \<times> string list
     \<Rightarrow> 'f list \<times> string list"
where
  "pe_step ops price_annual eps_annual year st =
     (let price = the (map_of price_annual year);
          eps = the (map_of eps_annual year)
      in if is_positive ops eps
         then (fst st @ [fround ops (fdiv ops price eps) 2], snd st @ [year]) else st)"

definition trailing_pe_of :: "'f float_ops \<Rightarrow> 'f \<Rightarrow> 'f option \<Rightarrow> 'f option" where
  "trailing_pe_of ops current_price ttm_eps =
     (case ttm_eps of
        None \<Rightarrow> None
      | Some t \<Rightarrow>
          if \<not> is_zero ops current_price \<and> \<not> is_zero ops t \<and> is_positive ops t
          then Some (fround ops (fdiv ops current_price t) 2) else None)"

definition calculate_pe_stats ::
  "'f float_ops \<Rightarrow> 'f price_stats option \<Rightarrow> 'f eps_stats option \<Rightarrow> py_error + 'f pe_stats option"
where
  "calculate_pe_stats ops price_stats eps_stats =
     (case (price_stats, eps_stats) of
        (Some ps, Some es) \<Rightarrow>
          let current_price = price_current ps;
              ttm_eps = eps_ttm es;
              trailing_pe = trailing_pe_of ops current_price ttm_eps;
              price_annual = dict_zip (price_annual_years ps) (price_annual_values ps);
              eps_annual = dict_zip (eps_annual_years es) (eps_annual_values es);
              common_years =
                sorted_list_of_set (set (map fst price_annual) \<inter> set (map fst eps_annual));
              series = fold (pe_step ops price_annual eps_annual) common_years ([], []);
              pe_values = fst series;
              pe_years = snd series;
              mean_5yr = (if pe_values \<noteq> [] then calculate_avg ops (map Some pe_values) else None);
              vs_5yr_avg_pct =
                (case (trailing_pe, mean_5yr) of
                   (Some t, Some m) \<Rightarrow>
                     if \<not> is_zero ops t \<and> \<not> is_zero ops m \<and> \<not> is_zero ops m
                     then Some (percent_of ops (fdiv ops (fsub ops t m) m)) else None
                 | _ \<Rightarrow> None);
              vs_yoy_pct =
                (if 2 \<le> length pe_values \<and> \<not> is_zero ops (last (butlast pe_values))
                 then Some (pct_change ops (last pe_values) (last (butlast pe_values))) else None)
          in bind_err (fallible_stats ops pe_values pe_years pe_values)
               (\<lambda>(cagr, cv, outlier_years).
                  Inr (Some
                    \<lparr>pe_trailing_pe = trailing_pe,
                     pe_current_price = current_price,
                     pe_ttm_eps = ttm_eps,
                     pe_mean_5yr = mean_5yr,
                     pe_cagr_5yr = cagr,
                     pe_cv = cv,
                     pe_slope = calculate_slope ops (map Some pe_values),
                     pe_vs_yoy_pct = vs_yoy_pct,
                     pe_vs_5yr_avg_pct = vs_5yr_avg_pct,
                     pe_recent_delta = calculate_recent_delta ops (map Some pe_values),
                     pe_outlier_years = outlier_years,
                     pe_annual_years = pe_years,
                     pe_annual_values = pe_values,
                     pe_years_of_data = length pe_values\<rparr>))
      | _ \<Rightarrow> Inr None)"

section \<open>Formatting\<close>

text \<open>
  In this section a number is the real number that is its exact value, and the two divisions
  of \<open>fmt_val\<close> are exact.
\<close>

text \<open>Rounding to an integer, a tie going to the even neighbour.\<close>

definition round_half_even :: "real \<Rightarrow> int" where
  "round_half_even x =
     (let f = \<lfloor>x\<rfloor>; d = x - of_int f in
      if d < 1 / 2 then f
      else if 1 / 2 < d then f + 1
      else if even f then f else f + 1)"

text \<open>
  The format specifications \<^verbatim>\<open>{x:,.2f}\<close>, \<^verbatim>\<open>{x:,.1f}\<close>, \<^verbatim>\<open>{x:,.0f}\<close> and \<^verbatim>\<open>{x:.2f}\<close> of the
  builtin \<^verbatim>\<open>format\<close>: the value rounded to \<open>n\<close> decimals (a tie to even), a minus sign for
  a negative value, the integer digits in groups of three when the comma is given, and \<open>n\<close>
  fraction digits after a point when \<open>n\<close> is not zero.
\<close>

definition digit_char :: "nat \<Rightarrow> char" where
  "digit_char d = ''0123456789'' ! d"

fun nat_digits :: "nat \<Rightarrow> string" where
  "nat_digits n = (if n < 10 then [digit_char n] else nat_digits (n div 10) @ [digit_char (n mod 10)])"

function group3 :: "string \<Rightarrow> string" where
  "group3 ds =
     (if length ds \<le> 3 then ds
      else group3 (take (length ds - 3) ds) @ '','' @ drop (length ds - 3) ds)"
  by pat_completeness auto
termination
  by (relation "measure length") auto

declare nat_digits.simps [simp del] group3.simps [simp del]

definition zero_pad :: "nat \<Rightarrow> string \<Rightarrow> string" where
  "zero_pad n s = replicate (n - length s) CHR ''0'' @ s"

definition format_fixed :: "bool \<Rightarrow> nat \<Rightarrow> real \<Rightarrow> string" where
  "format_fixed grouped n x =
     (let scaled = nat \<bar>round_half_even (x * 10 ^ n)\<bar>;
          int_digits = nat_digits (scaled div 10 ^ n);
          frac_digits = zero_pad n (nat_digits (scaled mod 10 ^ n))
      in (if x < 0 then ''-'' else '''')
         @ (if grouped then group3 int_digits else int_digits)
         @ (if n = 0 then '''' else ''.'' @ frac_digits))"

text \<open>The em dash U+2014, as the three bytes of its UTF-8 encoding.\<close>

definition em_dash :: string where
  "em_dash = [char_of (226 :: nat), char_of (128 :: nat), char_of (148 :: nat)]"

text \<open>
  \<^verbatim>\<open>fmt_val(val, unit='', is_delta=False)\<close>. The last branch prints the float with the builtin
  \<^verbatim>\<open>str\<close>, the parameter \<open>pystr\<close>.
\<close>

definition fmt_val :: "(real \<Rightarrow> string) \<Rightarrow> real option \<Rightarrow> string \<Rightarrow> bool \<Rightarrow> string" where
  "fmt_val pystr val unit is_delta =
     (case val of
        None \<Rightarrow> em_dash
      | Some v \<Rightarrow>
          let prefix = (if is_delta \<and> v > 0 then ''+'' else '''') in
          if unit = ''dollars'' then prefix @ ''$'' @ format_fixed True 2 v
          else if unit = ''dollars_large'' then
            (if \<bar>v\<bar> \<ge> 1000000000 then prefix @ ''$'' @ format_fixed True 2 (v / 1000000000) @ ''B''
             else if \<bar>v\<bar> \<ge> 1000000 then prefix @ ''$'' @ format_fixed True 1 (v / 1000000) @ ''M''
             else prefix @ ''$'' @ format_fixed True 0 v)
          else if unit = ''percent'' then prefix @ format_fixed False 2 v @ ''%''
          else if unit = ''ratio'' then prefix @ format_fixed False 2 v
          else prefix @ pystr v)"


section \<open>Notions of the specification\<close>

text \<open>
  The population standard deviation of a list of numbers and the band of two standard
  deviations around their mean, in the arithmetic of the floats: the mean, the squared
  deviations, their mean and its square root, each with the operation of \<open>ops\<close>. The band is
  the pair of its lower and its upper edge.
\<close>

definition population_std_dev :: "'f float_ops \<Rightarrow> 'f list \<Rightarrow> py_error + 'f" where
  "population_std_dev ops xs =
     bind_err (fvariance ops (fmean ops xs) xs) (\<lambda>variance. py_pow ops variance (flit ops (1 / 2)))"

definition outlier_band :: "'f float_ops \<Rightarrow> 'f list \<Rightarrow> py_error + ('f \<times> 'f)" where
  "outlier_band ops xs =
     bind_err (population_std_dev ops xs)
       (\<lambda>std_dev. Inr (fsub ops (fmean ops xs) (fmul ops (flit ops 2) std_dev),
                        fadd ops (fmean ops xs) (fmul ops (flit ops 2) std_dev)))"

definition outside_band :: "'f float_ops \<Rightarrow> 'f \<times> 'f \<Rightarrow> 'f \<Rightarrow> bool" where
  "outside_band ops band v \<longleftrightarrow> flt ops v (fst band) \<or> flt ops (snd band) v"

text \<open>The first and the last entry of a sequence that is not \<open>None\<close>, and how many there are.\<close>

fun first_present :: "'a option list \<Rightarrow> 'a option" where
  "first_present [] = None"
| "first_present (None # vs) = first_present vs"
| "first_present (Some v # vs) = Some v"

definition last_present :: "'a option list \<Rightarrow> 'a option" where
  "last_present values = first_present (rev values)"

definition present_count :: "'a option list \<Rightarrow> nat" where
  "present_count values = length (filter (\<lambda>v. v \<noteq> None) values)"

text \<open>
  The value a series of labels and values gives to a label: the value at the label's last
  position, as in the dictionary built from the two lists.
\<close>

definition series_value :: "string list \<Rightarrow> 'a list \<Rightarrow> string \<Rightarrow> 'a option" where
  "series_value years vals y = map_of (rev (zip years vals)) y"

text \<open>
  The valid bars of a monthly series, newest first, and their closes: at most the 60 most
  recent.
\<close>

definition monthly_bars :: "(string \<Rightarrow> 'f option) \<Rightarrow> time_series \<Rightarrow> (string \<times> 'f) list" where
  "monthly_bars pyfloat ts = sort_newest_first (valid_closes pyfloat ts)"

definition monthly_closes :: "(string \<Rightarrow> 'f option) \<Rightarrow> time_series \<Rightarrow> 'f list" where
  "monthly_closes pyfloat ts = map snd (take 60 (monthly_bars pyfloat ts))"

text \<open>The number of decimals of a printed number: the characters after its last point.\<close>

definition decimals :: "string \<Rightarrow> nat" where
  "decimals s =
     (if CHR ''.'' \<in> set s then length (takeWhile (\<lambda>c. c \<noteq> CHR ''.'') (rev s)) else 0)"

section \<open>Auxiliary notions\<close>

text \<open>
  An annual entry is kept by a calculator's loop when its value is present and its year label
  is not empty.
\<close>

definition entry_year :: "string option \<Rightarrow> string" where
  "entry_year date = take 4 (get_or_empty date)"

definition eps_entry_ok :: "(string \<Rightarrow> 'f option) \<Rightarrow> earnings_entry \<Rightarrow> bool" where
  "eps_entry_ok pf entry \<longleftrightarrow>
     safe_float pf (ee_reportedEPS entry) \<noteq> None \<and> entry_year (ee_fiscalDateEnding entry) \<noteq> ''''"

definition rev_report_ok :: "(string \<Rightarrow> 'f option) \<Rightarrow> income_report \<Rightarrow> bool" where
  "rev_report_ok pf r \<longleftrightarrow>
     safe_float pf (ir_totalRevenue r) \<noteq> None \<and> entry_year (ir_fiscalDateEnding r) \<noteq> ''''"

definition margin_report_ok :: "'f float_ops \<Rightarrow> (string \<Rightarrow> 'f option) \<Rightarrow> income_report \<Rightarrow> bool" where
  "margin_report_ok ops pf r \<longleftrightarrow>
     report_margin ops pf r \<noteq> None \<and> entry_year (ir_fiscalDateEnding r) \<noteq> ''''"

text \<open>An arithmetic in which \<^verbatim>\<open>**\<close> never raises.\<close>

definition pow_total :: "'f float_ops \<Rightarrow> bool" where
  "pow_total ops \<longleftrightarrow> (\<forall>x y. fpow ops x y \<noteq> None)"

text \<open>An arithmetic whose comparison \<^verbatim>\<open><\<close> is irreflexive and transitive.\<close>

definition flt_order :: "'f float_ops \<Rightarrow> bool" where
  "flt_order ops \<longleftrightarrow>
     (\<forall>x. \<not> flt ops x x) \<and> (\<forall>x y z. flt ops x y \<longrightarrow> flt ops y z \<longrightarrow> flt ops x z)"

section \<open>Example inputs\<close>

text \<open>
  The examples interpret the operations by exact arithmetic over the reals: \<^verbatim>\<open>round\<close> rounds
  to the nearest multiple of \<open>10\<^sup>-\<^sup>n\<close>, a tie going to the even neighbour, and \<^verbatim>\<open>**\<close> is the
  square for the exponent 2 and the real power otherwise and never raises. The inputs of the
  examples are chosen so that no rounding of theirs is near a tie.
\<close>

definition py_round :: "real \<Rightarrow> nat \<Rightarrow> real" where
  "py_round x ndigits = of_int (round_half_even (x * 10 ^ ndigits)) / 10 ^ ndigits"

definition exact_pow :: "real \<Rightarrow> real \<Rightarrow> real" where
  "exact_pow x y = (if y = 2 then x ^ 2 else x powr y)"

definition exact_ops :: "real float_ops" where
  "exact_ops =
     \<lparr>fadd = (+), fsub = (-), fmul = (*), fdiv = (/),
      fpow = (\<lambda>x y. Some (exact_pow x y)),
      fabs = abs, fround = py_round, fsum = sum_list, flit = (\<lambda>x. x),
      flt = (<), fle = (\<le>), feq = (=)\<rparr>"

text \<open>
  The builtin \<^verbatim>\<open>float\<close> on the literals the examples use; every other string is taken as
  malformed.
\<close>

definition demo_float :: "string \<Rightarrow> real option" where
  "demo_float =
     map_of
       [(''1.50'', 3 / 2), (''1.25'', 5 / 4), (''1.254'', 627 / 500), (''4.00'', 4), (''5.00'', 5),
        (''1000'', 1000), (''1200'', 1200), (''200'', 200), (''300'', 300),
        (''99.00'', 99), (''101.00'', 101), (''102.00'', 102), (''103.00'', 103),
        (''104.00'', 104), (''105.00'', 105), (''106.00'', 106), (''107.00'', 107),
        (''108.00'', 108), (''109.00'', 109), (''110.00'', 110), (''111.00'', 111),
        (''112.00'', 112)]"

definition earnings_of :: "string \<Rightarrow> string \<Rightarrow> earnings_entry" where
  "earnings_of date eps =
     \<lparr>ee_fiscalDateEnding = Some date, ee_reportedEPS = Some eps, ee_estimatedEPS = None\<rparr>"

definition report_of :: "string \<Rightarrow> string \<Rightarrow> string \<Rightarrow> income_report" where
  "report_of date revenue income =
     \<lparr>ir_fiscalDateEnding = Some date, ir_totalRevenue = Some revenue,
      ir_operatingIncome = Some income\<rparr>"

text \<open>Two quarters and no annual entry.\<close>

definition eps_without_annual :: earnings_payload where
  "eps_without_annual =
     \<lparr>quarterlyEarnings = [earnings_of ''2024-06-30'' ''1.50'', earnings_of ''2024-03-31'' ''1.25''],
      annualEarnings = []\<rparr>"

text \<open>The annual entries listed oldest first, and newest first as the API lists them.\<close>

definition eps_oldest_first :: earnings_payload where
  "eps_oldest_first =
     \<lparr>quarterlyEarnings = [earnings_of ''2024-06-30'' ''1.50'', earnings_of ''2024-03-31'' ''1.25''],
      annualEarnings = [earnings_of ''2022-12-31'' ''4.00'', earnings_of ''2023-12-31'' ''5.00'']\<rparr>"

definition eps_newest_first :: earnings_payload where
  "eps_newest_first =
     \<lparr>quarterlyEarnings = [earnings_of ''2025-03-31'' ''1.50'', earnings_of ''2024-12-31'' ''1.25''],
      annualEarnings = [earnings_of ''2024-12-31'' ''5.00'', earnings_of ''2023-12-31'' ''4.00'']\<rparr>"

definition income_newest_first :: income_payload where
  "income_newest_first =
     \<lparr>annualReports = [report_of ''2023-12-31'' ''1200'' ''300'', report_of ''2022-12-31'' ''1000'' ''200''],
      quarterlyReports = []\<rparr>"

text \<open>
  Thirteen months in no particular order. Newest first the closes are 105, 111, 112, 103, 106,
  107, 101, 108, 109, 110, 104, 102 and, for January 2024, 99: of the twelve most recent the
  highest is the third and the lowest the seventh.
\<close>

definition prices_13_months :: price_payload where
  "prices_13_months =
     \<lparr>monthly_adjusted =
        [(''2024-06-28'', Some ''108.00''), (''2025-01-31'', Some ''105.00''),
         (''2024-01-31'', Some ''99.00''), (''2024-11-29'', Some ''112.00''),
         (''2024-03-28'', Some ''104.00''), (''2024-12-31'', Some ''111.00''),
         (''2024-09-30'', Some ''106.00''), (''2024-02-29'', Some ''102.00''),
         (''2024-08-30'', Some ''107.00''), (''2024-05-31'', Some ''109.00''),
         (''2024-10-31'', Some ''103.00''), (''2024-07-31'', Some ''101.00''),
         (''2024-04-30'', Some ''110.00'')]\<rparr>"

text \<open>Four quarters, all with a reported EPS, and no annual entry.\<close>

definition eps_four_quarters :: earnings_payload where
  "eps_four_quarters =
     \<lparr>quarterlyEarnings =
        [earnings_of ''2024-06-30'' ''1.50'', earnings_of ''2024-03-31'' ''1.25'',
         earnings_of ''2023-12-31'' ''1.50'', earnings_of ''2023-09-30'' ''1.254''],
      annualEarnings = []\<rparr>"

text \<open>
  The example of the specification, with one more year: year-end prices 100 for 2020, 150 for
  2021 and 130 for 2022, annual EPS 3 for 2020, 5 for 2021 and -1 for 2022; the TTM EPS is 3
  and the current price 130.
\<close>

definition example_price_stats :: "real price_stats" where
  "example_price_stats =
     \<lparr>price_current = 130, price_current_date = ''2022-12-30'',
      price_mean_5yr = None, price_cagr_5yr = None, price_cv = None, price_slope = None,
      price_vs_3mo_pct = None, price_vs_yoy_pct = None,
      price_high_52w = Some 150, price_low_52w = Some 130,
      price_vs_52w_high_pct = None, price_vs_52w_low_pct = None,
      price_months_of_data = 36,
      price_annual_years = [''2020'', ''2021'', ''2022''], price_annual_values = [100, 150, 130],
      price_annual_recent_delta = \<lparr>absolute = None, percent = None\<rparr>,
      price_annual_outliers = []\<rparr>"

definition example_eps_stats :: "real eps_stats" where
  "example_eps_stats =
     \<lparr>eps_latest = 1, eps_latest_date = Some ''2022-12-31'', eps_ttm = Some 3,
      eps_vs_prev_q_pct = None, eps_vs_yoy_pct = None,
      eps_mean_5yr = None, eps_cagr_5yr = None, eps_cv = None, eps_slope = None,
      eps_recent_delta = \<lparr>absolute = None, percent = None\<rparr>,
      eps_outlier_years = [],
      eps_annual_years = [''2020'', ''2021'', ''2022''], eps_annual_values = [3, 5, - 1],
      eps_years_of_data = 3, eps_beat_miss_history = []\<rparr>"

text \<open>A stand-in for the builtin \<^verbatim>\<open>str\<close>; the examples do not reach the branch that calls it.\<close>

definition demo_str :: "real \<Rightarrow> string" where
  "demo_str x = ''''"

text \<open>The mean and the population variance of a list of reals.\<close>

definition exact_mean :: "real list \<Rightarrow> real" where
  "exact_mean xs = sum_list xs / real (length xs)"

definition exact_variance :: "real list \<Rightarrow> real" where
  "exact_variance xs = sum_list (map (\<lambda>x. (x - exact_mean xs) ^ 2) xs) / real (length xs)"

section \<open>Proofs\<close>

subsection \<open>Exceptions\<close>

lemma bind_err_simps [simp]: "bind_err (Inr x) f = f x" "bind_err (Inl e) f = Inl e"
  by (simp_all add: bind_err_def)

lemma bind_err_Inr_iff: "bind_err m f = Inr y \<longleftrightarrow> (\<exists>x. m = Inr x \<and> f x = Inr y)"
  by (cases m) simp_all

lemma bind_err_Inl_iff:
  "bind_err m f = Inl e \<longleftrightarrow> m = Inl e \<or> (\<exists>x. m = Inr x \<and> f x = Inl e)"
  by (cases m) simp_all

lemma map_err_Inr: "\<forall>x \<in> set xs. f x = Inr (g x) \<Longrightarrow> map_err f xs = Inr (map g xs)"
  by (induction xs) simp_all

lemma map_err_Inl: "map_err f xs = Inl e \<Longrightarrow> \<exists>x \<in> set xs. f x = Inl e"
  by (induction xs) (auto simp: bind_err_Inl_iff)

lemma map_err_total:
  assumes "\<forall>x \<in> set xs. \<exists>y. f x = Inr y"
  shows "\<exists>ys. map_err f xs = Inr ys"
proof (cases "map_err f xs")
  case (Inl e)
  from map_err_Inl [OF this] assms show ?thesis by auto
qed simp

lemma py_pow_error: "py_pow ops x y = Inl e \<Longrightarrow> e = OverflowError"
  by (auto simp: py_pow_def split: option.splits)

lemma py_pow_total:
  assumes "pow_total ops"
  shows "\<exists>z. py_pow ops x y = Inr z"
proof -
  from assms have "fpow ops x y \<noteq> None"
    unfolding pow_total_def by blast
  then show ?thesis
    by (auto simp: py_pow_def)
qed

lemma fvariance_error: "fvariance ops avg xs = Inl e \<Longrightarrow> e = OverflowError"
  by (auto simp: fvariance_def bind_err_Inl_iff dest!: map_err_Inl py_pow_error)

lemma fvariance_total:
  assumes "pow_total ops"
  shows "\<exists>v. fvariance ops avg xs = Inr v"
proof -
  have "\<forall>x \<in> set xs. \<exists>y. py_pow ops (fsub ops x avg) (flit ops 2) = Inr y"
    using py_pow_total [OF assms] by blast
  from map_err_total [OF this] obtain ys
    where "map_err (\<lambda>x. py_pow ops (fsub ops x avg) (flit ops 2)) xs = Inr ys" ..
  then show ?thesis
    by (simp add: fvariance_def)
qed

subsection \<open>Filtering\<close>

lemma enumerate_nth: "List.enumerate 0 xs = map (\<lambda>i. (i, xs ! i)) [0..<length xs]"
  by (rule nth_equalityI) (simp_all add: nth_enumerate_eq)

lemma clean_indexed_upt:
  "clean_indexed values =
     map (\<lambda>i. (i, the (values ! i))) (filter (\<lambda>i. values ! i \<noteq> None) [0..<length values])"
  by (simp add: clean_indexed_def enumerate_nth filter_map comp_def)

lemma clean_values_upt:
  "clean_values values =
     map (\<lambda>i. the (values ! i)) (filter (\<lambda>i. values ! i \<noteq> None) [0..<length values])"
proof -
  have "filter (\<lambda>v. v \<noteq> None) values =
      map ((!) values) (filter (\<lambda>i. values ! i \<noteq> None) [0..<length values])"
    by (subst (1) map_nth[symmetric]) (simp only: filter_map comp_def)
  then show ?thesis by (simp add: clean_values_def comp_def)
qed

lemma clean_indexed_snd: "map snd (clean_indexed values) = clean_values values"
  by (simp add: clean_indexed_upt clean_values_upt comp_def)

lemma length_clean_indexed: "length (clean_indexed values) = length (clean_values values)"
  by (simp add: clean_indexed_upt clean_values_upt)

lemma clean_values_Some [simp]: "clean_values (map Some vals) = vals"
  by (simp add: clean_values_def comp_def)

lemma clean_values_simps [simp]:
  "clean_values [] = []"
  "clean_values (None # vs) = clean_values vs"
  "clean_values (Some v # vs) = v # clean_values vs"
  by (simp_all add: clean_values_def)

lemma clean_values_rev: "clean_values (rev values) = rev (clean_values values)"
  by (simp add: clean_values_def rev_map rev_filter)

lemma length_clean_values: "length (clean_values values) = present_count values"
  by (simp add: clean_values_def present_count_def)

subsection \<open>Outliers\<close>

lemma outlier_band_error: "outlier_band ops xs = Inl e \<Longrightarrow> e = OverflowError"
  by (auto simp: outlier_band_def population_std_dev_def bind_err_Inl_iff
      dest: fvariance_error py_pow_error)

lemma outlier_band_total:
  assumes "pow_total ops"
  shows "\<exists>b. outlier_band ops xs = Inr b"
proof -
  from fvariance_total [OF assms] obtain v where v: "fvariance ops (fmean ops xs) xs = Inr v"
    by blast
  from py_pow_total [OF assms] obtain s where "py_pow ops v (flit ops (1 / 2)) = Inr s"
    by blast
  with v show ?thesis
    by (simp add: outlier_band_def population_std_dev_def)
qed

lemma detect_outliers_band:
  "detect_outliers ops values =
     (if length (clean_values values) < 3 then Inr []
      else bind_err (outlier_band ops (clean_values values))
        (\<lambda>band. Inr (filter (\<lambda>i. case values ! i of None \<Rightarrow> False
                                  | Some v \<Rightarrow> outside_band ops band v)
                       [0..<length values])))"
proof (cases "length (clean_values values) < 3")
  case True
  then show ?thesis
    by (simp add: detect_outliers_def length_clean_indexed)
next
  case False
  let ?xs = "clean_values values"
  have flt: "map fst (filter (\<lambda>(i, v). flt ops v lo \<or> flt ops hi v) (clean_indexed values)) =
      filter (\<lambda>i. case values ! i of None \<Rightarrow> False | Some v \<Rightarrow> outside_band ops (lo, hi) v)
        [0..<length values]" for lo hi
    by (auto simp: clean_indexed_upt filter_map comp_def outside_band_def
        intro!: filter_cong split: option.splits)
  show ?thesis
  proof (cases "fvariance ops (fmean ops ?xs) ?xs")
    case (Inl e)
    with False show ?thesis
      by (simp add: detect_outliers_def Let_def length_clean_indexed clean_indexed_snd
          outlier_band_def population_std_dev_def)
  next
    case (Inr variance)
    with False show ?thesis
      by (cases "py_pow ops variance (flit ops (1 / 2))")
        (simp_all add: detect_outliers_def Let_def length_clean_indexed clean_indexed_snd
          outlier_band_def population_std_dev_def flt)
  qed
qed

lemma detect_outliers_less:
  "detect_outliers ops values = Inr idxs \<Longrightarrow> i \<in> set idxs \<Longrightarrow> i < length values"
  by (auto simp: detect_outliers_band bind_err_Inr_iff split: if_splits)

lemma detect_outliers_error: "detect_outliers ops values = Inl e \<Longrightarrow> e = OverflowError"
  by (auto simp: detect_outliers_band bind_err_Inl_iff dest: outlier_band_error split: if_splits)

lemma detect_outliers_total: "pow_total ops \<Longrightarrow> \<exists>idxs. detect_outliers ops values = Inr idxs"
  using outlier_band_total [of ops "clean_values values"]
  by (auto simp: detect_outliers_band)

lemma detect_outliers_Nil [simp]: "detect_outliers ops [] = Inr []"
  by (simp add: detect_outliers_band)

subsection \<open>Outliers in exact arithmetic\<close>

lemma exact_ops_simps [simp]:
  "fadd exact_ops = (+)" "fsub exact_ops = (-)" "fmul exact_ops = (*)" "fdiv exact_ops = (/)"
  "fabs exact_ops = abs" "fround exact_ops = py_round" "fsum exact_ops = sum_list"
  "flit exact_ops x = x" "flt exact_ops = (<)" "fle exact_ops = (\<le>)" "feq exact_ops = (=)"
  "fpow exact_ops x y = Some (exact_pow x y)"
  by (simp_all add: exact_ops_def)

lemma pow_total_exact: "pow_total exact_ops"
  by (simp add: pow_total_def)

lemma py_pow_exact [simp]: "py_pow exact_ops x y = Inr (exact_pow x y)"
  by (simp add: py_pow_def)

lemma fmean_exact [simp]: "fmean exact_ops xs = exact_mean xs"
  by (simp add: fmean_def exact_mean_def)

lemma exact_predicates [simp]:
  "is_zero exact_ops x \<longleftrightarrow> x = 0" "is_positive exact_ops x \<longleftrightarrow> 0 < x"
  "is_nonpositive exact_ops x \<longleftrightarrow> x \<le> 0"
  by (simp_all add: is_zero_def is_positive_def is_nonpositive_def)

lemma percent_of_exact [simp]: "percent_of exact_ops x = py_round (x * 100) 2"
  by (simp add: percent_of_def)

lemma exact_variance_nonneg: "0 \<le> exact_variance xs"
  unfolding exact_variance_def
  by (intro divide_nonneg_nonneg sum_list_nonneg) auto

lemma fvariance_exact:
  "fvariance exact_ops (exact_mean xs) xs = Inr (exact_variance xs)"
proof -
  have "map_err (\<lambda>x. py_pow exact_ops (fsub exact_ops x (exact_mean xs)) (flit exact_ops 2)) xs =
      Inr (map (\<lambda>x. (x - exact_mean xs) ^ 2) xs)"
    by (intro map_err_Inr) (simp add: exact_pow_def)
  then show ?thesis
    by (simp add: fvariance_def exact_variance_def)
qed

lemma outlier_band_exact:
  "outlier_band exact_ops xs =
     Inr (exact_mean xs - 2 * sqrt (exact_variance xs), exact_mean xs + 2 * sqrt (exact_variance xs))"
proof -
  have "exact_pow (exact_variance xs) (1 / 2) = sqrt (exact_variance xs)"
    using powr_half_sqrt [OF exact_variance_nonneg, of xs] by (simp add: exact_pow_def)
  then show ?thesis
    by (simp add: outlier_band_def population_std_dev_def fvariance_exact)
qed

lemma outside_band_exact:
  assumes "0 \<le> s"
  shows "outside_band exact_ops (m - 2 * sqrt s, m + 2 * sqrt s) v \<longleftrightarrow> 4 * s < (v - m) ^ 2"
proof -
  have a: "outside_band exact_ops (m - 2 * sqrt s, m + 2 * sqrt s) v \<longleftrightarrow> 2 * sqrt s < \<bar>v - m\<bar>"
    unfolding outside_band_def by (simp add: abs_less_iff) linarith
  have b: "2 * sqrt s < \<bar>v - m\<bar> \<longleftrightarrow> sqrt (4 * s) < sqrt ((v - m) ^ 2)"
    by (simp add: real_sqrt_mult)
  have c: "sqrt (4 * s) < sqrt ((v - m) ^ 2) \<longleftrightarrow> 4 * s < (v - m) ^ 2"
    by (rule real_sqrt_less_iff)
  show ?thesis
    unfolding a b c ..
qed

lemma detect_outliers_exact:
  "detect_outliers exact_ops values =
     Inr (if length (clean_values values) < 3 then []
          else filter
            (\<lambda>i. case values ! i of
                   None \<Rightarrow> False
                 | Some v \<Rightarrow>
                     4 * exact_variance (clean_values values)
                       < (v - exact_mean (clean_values values)) ^ 2)
            [0..<length values])"
  by (simp add: detect_outliers_band outlier_band_exact
      outside_band_exact [OF exact_variance_nonneg] cong: option.case_cong)

text \<open>
  Claim C2, as stated, fails: the index returned is the position in the sequence as given,
  \<open>None\<close> entries counted. Here the outlier is the seventh entry, at position 6, while the
  filtered sequence has six entries, the outlier at position 5.
\<close>

theorem detect_outliers_filtered_position_counterexample:
  "detect_outliers exact_ops [None, Some 0, Some 0, Some 0, Some 0, Some 0, Some 100] = Inr [6]
   \<and> clean_values [None, Some 0, Some 0, Some 0, Some 0, Some 0, Some (100 :: real)]
       = [0, 0, 0, 0, 0, 100]"
  by (simp add: detect_outliers_exact exact_variance_def exact_mean_def power2_eq_square)

text \<open>
  Claim C2, amended: \<open>detect_outliers\<close> returns the empty list when fewer than three entries
  are not \<open>None\<close>. Otherwise it computes, in the arithmetic of the floats, the band of two
  population standard deviations around the mean of the entries that are not \<open>None\<close>; if
  that raises (\<^verbatim>\<open>**\<close> can raise \<^verbatim>\<open>OverflowError\<close>) so does the function, and else it returns,
  in increasing order, the positions in the sequence as given (\<open>None\<close> entries counted) of
  exactly those entries that are not \<open>None\<close> and compare below the lower or above the upper
  edge of the band.
\<close>

theorem detect_outliers_original_positions:
  "detect_outliers ops values =
     (if present_count values < 3 then Inr []
      else case outlier_band ops (clean_values values) of
             Inl e \<Rightarrow> Inl e
           | Inr band \<Rightarrow>
               Inr (filter (\<lambda>i. case values ! i of None \<Rightarrow> False
                                  | Some v \<Rightarrow> outside_band ops band v)
                      [0..<length values]))"
  by (simp add: detect_outliers_band length_clean_values bind_err_def)

theorem detect_outliers_original_positions_witness:
  "detect_outliers exact_ops [Some 1, None, Some 1, Some 1, None, Some 1, Some 1, Some 50] = Inr [7]
   \<and> outlier_band exact_ops [1, 1, 1, 1, 1, 50]
       = Inr (55 / 6 - 2 * sqrt (12005 / 36), 55 / 6 + 2 * sqrt (12005 / 36))
   \<and> detect_outliers exact_ops [Some 1, None, Some 50] = Inr []"
proof -
  have v: "exact_mean [1, 1, 1, 1, 1, 50] = 55 / 6" "exact_variance [1, 1, 1, 1, 1, 50] = 12005 / 36"
    by (simp_all add: exact_variance_def exact_mean_def power2_eq_square)
  have b: "outlier_band exact_ops [1, 1, 1, 1, 1, 50]
      = Inr (55 / 6 - 2 * sqrt (12005 / 36), 55 / 6 + 2 * sqrt (12005 / 36))"
    by (simp only: outlier_band_exact v)
  have o: "outside_band exact_ops (55 / 6 - 2 * sqrt (12005 / 36), 55 / 6 + 2 * sqrt (12005 / 36)) v
      \<longleftrightarrow> 4 * (12005 / 36) < (v - 55 / 6) ^ 2" for v
    by (rule outside_band_exact) simp
  show ?thesis
    using detect_outliers_original_positions
      [of exact_ops "[Some 1, None, Some 1, Some 1, None, Some 1, Some 1, Some 50]"]
      detect_outliers_original_positions [of exact_ops "[Some 1, None, Some 50]"]
    by (simp add: present_count_def b o power2_eq_square cong: option.case_cong)
qed

subsection \<open>CAGR\<close>

lemma first_present_clean:
  "first_present values = (case clean_values values of [] \<Rightarrow> None | x # _ \<Rightarrow> Some x)"
  by (induction "values" rule: first_present.induct) simp_all

lemma last_present_clean:
  "last_present values =
     (if clean_values values = [] then None else Some (last (clean_values values)))"
  by (simp add: last_present_def first_present_clean clean_values_rev hd_rev split: list.splits)

lemma calculate_cagr_error: "calculate_cagr ops values = Inl e \<Longrightarrow> e = OverflowError"
  by (auto simp: calculate_cagr_def Let_def bind_err_Inl_iff dest: py_pow_error split: if_splits)

lemma calculate_cagr_total:
  assumes "pow_total ops"
  shows "\<exists>c. calculate_cagr ops values = Inr c"
proof (cases "calculate_cagr ops values")
  case (Inl e)
  then obtain x y where "py_pow ops x y = Inl e"
    by (auto simp: calculate_cagr_def Let_def bind_err_Inl_iff split: if_splits)
  with py_pow_total [OF assms, of x y] show ?thesis by simp
qed simp

text \<open>
  Claim C3: \<open>calculate_cagr\<close> returns \<open>None\<close> exactly when fewer than two entries are not
  \<open>None\<close>, or the first or the last of them is at most zero; otherwise it returns
  \<open>((last / first) ** (1 / (n - 1)) - 1) * 100\<close> rounded to two decimals by \<^verbatim>\<open>round\<close>, where \<open>n\<close>
  counts the entries that are not \<open>None\<close> (not the length of the sequence as given), unless
  \<^verbatim>\<open>**\<close> raises.
\<close>

theorem calculate_cagr_spec:
  "(calculate_cagr ops values = Inr None \<longleftrightarrow>
      present_count values < 2
      \<or> (\<exists>f. first_present values = Some f \<and> fle ops f (flit ops 0))
      \<or> (\<exists>l. last_present values = Some l \<and> fle ops l (flit ops 0)))
   \<and> (\<forall>f l. first_present values = Some f \<and> last_present values = Some l
        \<and> calculate_cagr ops values \<noteq> Inr None
        \<longrightarrow> calculate_cagr ops values =
            (case fpow ops (fdiv ops l f)
                    (fdiv ops (flit ops 1) (flit ops (real (present_count values - 1)))) of
               None \<Rightarrow> Inl OverflowError
             | Some growth \<Rightarrow>
                 Inr (Some (fround ops (fmul ops (fsub ops growth (flit ops 1)) (flit ops 100)) 2))))"
proof (cases "clean_values values")
  case Nil
  then show ?thesis
    by (simp add: calculate_cagr_def first_present_clean last_present_clean
        flip: length_clean_values)
next
  case (Cons x xs)
  then show ?thesis
    by (auto simp: calculate_cagr_def Let_def first_present_clean last_present_clean
        is_nonpositive_def py_pow_def percent_of_def bind_err_def
        simp flip: length_clean_values split: option.splits)
qed

lemma py_round_int: "py_round (of_int k) n = of_int k"
  by (simp add: py_round_def round_half_even_def flip: of_int_power of_int_mult)

theorem calculate_cagr_spec_witness:
  "calculate_cagr exact_ops [Some 3, None, Some 4] = Inr (Some (3333 / 100))
   \<and> calculate_cagr exact_ops [Some 4, None, Some 9] = Inr (Some 125)
   \<and> calculate_cagr exact_ops [Some 100, Some 110, Some 0] = Inr None"
proof -
  have r: "py_round (100 / 3) 2 = 3333 / 100" "py_round 125 2 = 125"
    using py_round_int [of 125 2] by (simp_all add: py_round_def round_half_even_def)
  have p: "exact_pow x 1 = x" if "0 \<le> x" for x
    using that by (simp add: exact_pow_def)
  show ?thesis
    using calculate_cagr_spec [of exact_ops "[Some 3, None, Some 4]"]
      calculate_cagr_spec [of exact_ops "[Some 4, None, Some 9]"]
      calculate_cagr_spec [of exact_ops "[Some 100, Some 110, Some 0]"]
    by (simp add: present_count_def last_present_def p r)
qed

subsection \<open>The statistics that can raise\<close>

lemma calculate_cv_error: "calculate_cv ops values = Inl e \<Longrightarrow> e = OverflowError"
  by (auto simp: calculate_cv_def Let_def bind_err_Inl_iff
      dest: py_pow_error fvariance_error split: if_splits)

lemma calculate_cv_total:
  assumes "pow_total ops"
  shows "\<exists>c. calculate_cv ops values = Inr c"
proof -
  let ?xs = "clean_values values"
  from fvariance_total [OF assms] obtain v where v: "fvariance ops (fmean ops ?xs) ?xs = Inr v"
    by blast
  from py_pow_total [OF assms] obtain s where "py_pow ops v (flit ops (1 / 2)) = Inr s"
    by blast
  with v show ?thesis
    by (simp add: calculate_cv_def Let_def)
qed

lemma outlier_labels_in_range:
  assumes "length years = length vals"
  shows "outlier_labels ops years vals =
     bind_err (detect_outliers ops (map Some vals)) (\<lambda>idxs. Inr (map ((!) years) idxs))"
proof (cases "detect_outliers ops (map Some vals)")
  case (Inl e)
  then have "vals \<noteq> []" by auto
  with Inl show ?thesis
    by (simp add: outlier_labels_def)
next
  case (Inr idxs)
  have "\<forall>i \<in> set idxs. py_index years i = Inr (years ! i)"
    using detect_outliers_less [OF Inr] assms by (simp add: py_index_def)
  then have "map_err (py_index years) idxs = Inr (map ((!) years) idxs)"
    by (rule map_err_Inr)
  with Inr show ?thesis
    by (cases "vals = []") (simp_all add: outlier_labels_def)
qed

lemma outlier_labels_error:
  "length years = length vals \<Longrightarrow> outlier_labels ops years vals = Inl e \<Longrightarrow> e = OverflowError"
  by (auto simp: outlier_labels_in_range bind_err_Inl_iff dest: detect_outliers_error)

lemma outlier_labels_total:
  assumes "pow_total ops" "length years = length vals"
  shows "\<exists>labels. outlier_labels ops years vals = Inr labels"
  using detect_outliers_total [OF assms(1), of "map Some vals"]
  by (auto simp: outlier_labels_in_range [OF assms(2)])

lemma fallible_stats_error:
  "length years = length vals \<Longrightarrow> fallible_stats ops series years vals = Inl e \<Longrightarrow> e = OverflowError"
  by (auto simp: fallible_stats_def bind_err_Inl_iff
      dest: calculate_cagr_error calculate_cv_error outlier_labels_error)

lemma fallible_stats_total:
  assumes "pow_total ops" "length years = length vals"
  shows "\<exists>t. fallible_stats ops series years vals = Inr t"
proof -
  from calculate_cagr_total [OF assms(1)] obtain c
    where "calculate_cagr ops (map Some series) = Inr c" by blast
  moreover from calculate_cv_total [OF assms(1)] obtain v
    where "calculate_cv ops (map Some series) = Inr v" by blast
  moreover from outlier_labels_total [OF assms] obtain l
    where "outlier_labels ops years vals = Inr l" by blast
  ultimately show ?thesis
    by (simp add: fallible_stats_def)
qed

subsection \<open>The loops that build two parallel lists\<close>

lemma fold_parallel:
  "fold (\<lambda>x st. if ok x then (fst st @ [f x], snd st @ [g x]) else st) xs st =
     (fst st @ map f (filter ok xs), snd st @ map g (filter ok xs))"
  by (induction xs arbitrary: st) simp_all

lemma eps_annual_fold:
  "fold (eps_annual_step pf) xs ([], []) =
     (map (\<lambda>e. the (safe_float pf (ee_reportedEPS e))) (filter (eps_entry_ok pf) xs),
      map (\<lambda>e. entry_year (ee_fiscalDateEnding e)) (filter (eps_entry_ok pf) xs))"
proof -
  have "eps_annual_step pf =
      (\<lambda>x st. if eps_entry_ok pf x
         then (fst st @ [the (safe_float pf (ee_reportedEPS x))],
               snd st @ [entry_year (ee_fiscalDateEnding x)])
         else st)"
    by (intro ext) (simp add: eps_annual_step_def eps_entry_ok_def entry_year_def Let_def)
  then show ?thesis
    by (simp add: fold_parallel)
qed

lemma rev_annual_fold:
  "fold (rev_annual_step pf) xs ([], []) =
     (map (\<lambda>r. the (safe_float pf (ir_totalRevenue r))) (filter (rev_report_ok pf) xs),
      map (\<lambda>r. entry_year (ir_fiscalDateEnding r)) (filter (rev_report_ok pf) xs))"
proof -
  have "rev_annual_step pf =
      (\<lambda>x st. if rev_report_ok pf x
         then (fst st @ [the (safe_float pf (ir_totalRevenue x))],
               snd st @ [entry_year (ir_fiscalDateEnding x)])
         else st)"
    by (intro ext) (simp add: rev_annual_step_def rev_report_ok_def entry_year_def Let_def)
  then show ?thesis
    by (simp add: fold_parallel)
qed

lemma margin_annual_fold:
  "fold (margin_annual_step ops pf) xs ([], []) =
     (map (\<lambda>r. the (report_margin ops pf r)) (filter (margin_report_ok ops pf) xs),
      map (\<lambda>r. entry_year (ir_fiscalDateEnding r)) (filter (margin_report_ok ops pf) xs))"
proof -
  have "margin_annual_step ops pf =
      (\<lambda>x st. if margin_report_ok ops pf x
         then (fst st @ [the (report_margin ops pf x)],
               snd st @ [entry_year (ir_fiscalDateEnding x)])
         else st)"
    by (intro ext) (simp add: margin_annual_step_def margin_report_ok_def entry_year_def Let_def)
  then show ?thesis
    by (simp add: fold_parallel)
qed

subsection \<open>EPS\<close>

lemma calculate_eps_stats_result:
  assumes "2 \<le> length (quarterlyEarnings d)"
    and "safe_float pf (ee_reportedEPS (quarterlyEarnings d ! 0)) = Some latest"
  defines "kept \<equiv> filter (eps_entry_ok pf) (take 5 (annualEarnings d))"
  defines "years \<equiv> rev (map (\<lambda>e. entry_year (ee_fiscalDateEnding e)) kept)"
  defines "vals \<equiv> rev (map (\<lambda>e. the (safe_float pf (ee_reportedEPS e))) kept)"
  shows "calculate_eps_stats ops pf (Some d) = Inl OverflowError
     \<or> (\<exists>r. calculate_eps_stats ops pf (Some d) = Inr (Some r)
          \<and> eps_latest r = latest
          \<and> eps_ttm r = ttm_of ops pf (quarterlyEarnings d)
          \<and> eps_annual_years r = years
          \<and> eps_annual_values r = vals)"
proof (cases "fallible_stats ops vals years vals")
  case (Inl e)
  have "length years = length vals"
    by (simp add: years_def vals_def)
  moreover from assms(1) have "quarterlyEarnings d \<noteq> []" by auto
  ultimately show ?thesis
    using fallible_stats_error [OF _ Inl] Inl assms(1,2)
    by (simp add: calculate_eps_stats_def Let_def YEARS_TO_ANALYZE_def eps_annual_fold
        flip: kept_def years_def vals_def)
next
  case (Inr t)
  then obtain cagr cv labels where "fallible_stats ops vals years vals = Inr (cagr, cv, labels)"
    by (cases t) auto
  moreover from assms(1) have "quarterlyEarnings d \<noteq> []" by auto
  ultimately show ?thesis
    using assms(1,2)
    by (simp add: calculate_eps_stats_def Let_def YEARS_TO_ANALYZE_def eps_annual_fold
        flip: kept_def years_def vals_def)
qed

lemma calculate_eps_stats_total:
  assumes "pow_total ops" "2 \<le> length (quarterlyEarnings d)"
    and "safe_float pf (ee_reportedEPS (quarterlyEarnings d ! 0)) = Some latest"
  shows "calculate_eps_stats ops pf (Some d) \<noteq> Inl OverflowError"
proof -
  let ?kept = "filter (eps_entry_ok pf) (take 5 (annualEarnings d))"
  let ?years = "rev (map (\<lambda>e. entry_year (ee_fiscalDateEnding e)) ?kept)"
  let ?vals = "rev (map (\<lambda>e. the (safe_float pf (ee_reportedEPS e))) ?kept)"
  have "length ?years = length ?vals" by simp
  from fallible_stats_total [OF assms(1) this, of ?vals]
  obtain cagr cv labels where "fallible_stats ops ?vals ?years ?vals = Inr (cagr, cv, labels)"
    by (metis prod_cases3)
  moreover from assms(2) have "quarterlyEarnings d \<noteq> []" by auto
  ultimately show ?thesis
    using assms(2,3)
    by (simp add: calculate_eps_stats_def Let_def YEARS_TO_ANALYZE_def eps_annual_fold)
qed

lemma calculate_eps_stats_None_iff:
  "calculate_eps_stats ops pf (Some d) = Inr None \<longleftrightarrow>
     length (quarterlyEarnings d) < 2
     \<or> safe_float pf (ee_reportedEPS (quarterlyEarnings d ! 0)) = None"
proof (cases "2 \<le> length (quarterlyEarnings d)
    \<and> safe_float pf (ee_reportedEPS (quarterlyEarnings d ! 0)) \<noteq> None")
  case True
  then obtain latest where "safe_float pf (ee_reportedEPS (quarterlyEarnings d ! 0)) = Some latest"
    by auto
  with True calculate_eps_stats_result [of d pf latest ops] show ?thesis
    by auto
next
  case False
  then show ?thesis
    by (auto simp: calculate_eps_stats_def Let_def)
qed

lemma calculate_eps_stats_Some:
  assumes "calculate_eps_stats ops pf ed = Inr (Some r)"
  obtains d latest where "ed = Some d" "2 \<le> length (quarterlyEarnings d)"
    "safe_float pf (ee_reportedEPS (quarterlyEarnings d ! 0)) = Some latest"
    "eps_latest r = latest"
    "eps_ttm r = ttm_of ops pf (quarterlyEarnings d)"
    "eps_annual_years r = rev (map (\<lambda>e. entry_year (ee_fiscalDateEnding e))
       (filter (eps_entry_ok pf) (take 5 (annualEarnings d))))"
    "eps_annual_values r = rev (map (\<lambda>e. the (safe_float pf (ee_reportedEPS e)))
       (filter (eps_entry_ok pf) (take 5 (annualEarnings d))))"
proof (cases ed)
  case None
  with assms show ?thesis by (simp add: calculate_eps_stats_def)
next
  case (Some d)
  with assms have "calculate_eps_stats ops pf (Some d) \<noteq> Inr None" by simp
  then obtain latest where l: "2 \<le> length (quarterlyEarnings d)"
    "safe_float pf (ee_reportedEPS (quarterlyEarnings d ! 0)) = Some latest"
    by (auto simp: calculate_eps_stats_None_iff)
  from calculate_eps_stats_result [OF l, of ops] assms Some l that show ?thesis
    by auto
qed

lemma calculate_eps_stats_error: "calculate_eps_stats ops pf ed = Inl e \<Longrightarrow> e = OverflowError"
proof (cases ed)
  case None
  then show "calculate_eps_stats ops pf ed = Inl e \<Longrightarrow> e = OverflowError"
    by (simp add: calculate_eps_stats_def)
next
  case (Some d)
  assume a: "calculate_eps_stats ops pf ed = Inl e"
  with Some have "calculate_eps_stats ops pf (Some d) \<noteq> Inr None" by simp
  then obtain latest where "2 \<le> length (quarterlyEarnings d)"
    "safe_float pf (ee_reportedEPS (quarterlyEarnings d ! 0)) = Some latest"
    by (auto simp: calculate_eps_stats_None_iff)
  from calculate_eps_stats_result [OF this, of ops] a Some show "e = OverflowError"
    by auto
qed

subsection \<open>Revenue and margin\<close>

lemma calculate_revenue_stats_None:
  "length (filter (rev_report_ok pf) (take 5 (annualReports d))) < 2
     \<Longrightarrow> calculate_revenue_stats ops pf cy (Some d) = Inr None"
  by (simp add: calculate_revenue_stats_def Let_def YEARS_TO_ANALYZE_def rev_annual_fold)

lemma calculate_revenue_stats_result:
  assumes "2 \<le> length (filter (rev_report_ok pf) (take 5 (annualReports d)))"
  defines "kept \<equiv> filter (rev_report_ok pf) (take 5 (annualReports d))"
  defines "years \<equiv> rev (map (\<lambda>r. entry_year (ir_fiscalDateEnding r)) kept)"
  defines "vals \<equiv> rev (map (\<lambda>r. the (safe_float pf (ir_totalRevenue r))) kept)"
  shows "calculate_revenue_stats ops pf cy (Some d) = Inl OverflowError
     \<or> (\<exists>r. calculate_revenue_stats ops pf cy (Some d) = Inr (Some r)
          \<and> rev_annual_years r = years
          \<and> rev_annual_values r = vals)"
proof (cases "fallible_stats ops vals years vals")
  case (Inl e)
  have "length years = length vals"
    by (simp add: years_def vals_def)
  moreover from assms(1) have "annualReports d \<noteq> []" by auto
  ultimately show ?thesis
    using fallible_stats_error [OF _ Inl] Inl assms(1)
    by (simp add: calculate_revenue_stats_def Let_def YEARS_TO_ANALYZE_def rev_annual_fold
        flip: kept_def years_def vals_def)
next
  case (Inr t)
  then obtain cagr cv labels where "fallible_stats ops vals years vals = Inr (cagr, cv, labels)"
    by (cases t) auto
  moreover from assms(1) have "annualReports d \<noteq> []" by auto
  ultimately show ?thesis
    using assms(1)
    by (simp add: calculate_revenue_stats_def Let_def YEARS_TO_ANALYZE_def rev_annual_fold
        flip: kept_def years_def vals_def)
qed

lemma calculate_revenue_stats_total:
  assumes "pow_total ops" "2 \<le> length (filter (rev_report_ok pf) (take 5 (annualReports d)))"
  shows "calculate_revenue_stats ops pf cy (Some d) \<noteq> Inl OverflowError"
proof -
  let ?kept = "filter (rev_report_ok pf) (take 5 (annualReports d))"
  let ?years = "rev (map (\<lambda>r. entry_year (ir_fiscalDateEnding r)) ?kept)"
  let ?vals = "rev (map (\<lambda>r. the (safe_float pf (ir_totalRevenue r))) ?kept)"
  have "length ?years = length ?vals" by simp
  from fallible_stats_total [OF assms(1) this, of ?vals]
  obtain cagr cv labels where "fallible_stats ops ?vals ?years ?vals = Inr (cagr, cv, labels)"
    by (metis prod_cases3)
  moreover from assms(2) have "annualReports d \<noteq> []" by auto
  ultimately show ?thesis
    using assms(2)
    by (simp add: calculate_revenue_stats_def Let_def YEARS_TO_ANALYZE_def rev_annual_fold)
qed

lemma calculate_revenue_stats_Some:
  assumes "calculate_revenue_stats ops pf cy idata = Inr (Some r)"
  obtains d where "idata = Some d"
    "2 \<le> length (filter (rev_report_ok pf) (take 5 (annualReports d)))"
    "rev_annual_years r = rev (map (\<lambda>r. entry_year (ir_fiscalDateEnding r))
       (filter (rev_report_ok pf) (take 5 (annualReports d))))"
    "rev_annual_values r = rev (map (\<lambda>r. the (safe_float pf (ir_totalRevenue r)))
       (filter (rev_report_ok pf) (take 5 (annualReports d))))"
proof (cases idata)
  case None
  with assms show ?thesis by (simp add: calculate_revenue_stats_def)
next
  case (Some d)
  with assms calculate_revenue_stats_None [where pf = pf and d = d and ops = ops and cy = cy]
  have l: "2 \<le> length (filter (rev_report_ok pf) (take 5 (annualReports d)))"
    by (cases "2 \<le> length (filter (rev_report_ok pf) (take 5 (annualReports d)))") simp_all
  from calculate_revenue_stats_result [OF l, where cy = cy and ops = ops] assms Some l that show ?thesis
    by auto
qed

lemma calculate_revenue_stats_error:
  assumes "calculate_revenue_stats ops pf cy idata = Inl e"
  shows "e = OverflowError"
proof (cases idata)
  case None
  with assms show ?thesis by (simp add: calculate_revenue_stats_def)
next
  case (Some d)
  with assms calculate_revenue_stats_None [where pf = pf and d = d and ops = ops and cy = cy]
  have l: "2 \<le> length (filter (rev_report_ok pf) (take 5 (annualReports d)))"
    by (cases "2 \<le> length (filter (rev_report_ok pf) (take 5 (annualReports d)))") simp_all
  from calculate_revenue_stats_result [OF l, where cy = cy and ops = ops] assms Some show ?thesis
    by auto
qed

lemma calculate_margin_stats_None:
  "length (filter (margin_report_ok ops pf) (take 5 (annualReports d))) < 2
     \<Longrightarrow> calculate_margin_stats ops pf cy (Some d) = Inr None"
  by (simp add: calculate_margin_stats_def Let_def YEARS_TO_ANALYZE_def margin_annual_fold)

lemma calculate_margin_stats_result:
  assumes "2 \<le> length (filter (margin_report_ok ops pf) (take 5 (annualReports d)))"
  defines "kept \<equiv> filter (margin_report_ok ops pf) (take 5 (annualReports d))"
  defines "years \<equiv> rev (map (\<lambda>r. entry_year (ir_fiscalDateEnding r)) kept)"
  defines "vals \<equiv> rev (map (\<lambda>r. the (report_margin ops pf r)) kept)"
  shows "calculate_margin_stats ops pf cy (Some d) = Inl OverflowError
     \<or> (\<exists>r. calculate_margin_stats ops pf cy (Some d) = Inr (Some r)
          \<and> margin_annual_years r = years
          \<and> margin_annual_values r = vals)"
proof (cases "fallible_stats ops vals years vals")
  case (Inl e)
  have "length years = length vals"
    by (simp add: years_def vals_def)
  moreover from assms(1) have "annualReports d \<noteq> []" by auto
  ultimately show ?thesis
    using fallible_stats_error [OF _ Inl] Inl assms(1)
    by (simp add: calculate_margin_stats_def Let_def YEARS_TO_ANALYZE_def margin_annual_fold
        flip: kept_def years_def vals_def)
next
  case (Inr t)
  then obtain cagr cv labels where "fallible_stats ops vals years vals = Inr (cagr, cv, labels)"
    by (cases t) auto
  moreover from assms(1) have "annualReports d \<noteq> []" by auto
  ultimately show ?thesis
    using assms(1)
    by (simp add: calculate_margin_stats_def Let_def YEARS_TO_ANALYZE_def margin_annual_fold
        flip: kept_def years_def vals_def)
qed

lemma calculate_margin_stats_total:
  assumes "pow_total ops" "2 \<le> length (filter (margin_report_ok ops pf) (take 5 (annualReports d)))"
  shows "calculate_margin_stats ops pf cy (Some d) \<noteq> Inl OverflowError"
proof -
  let ?kept = "filter (margin_report_ok ops pf) (take 5 (annualReports d))"
  let ?years = "rev (map (\<lambda>r. entry_year (ir_fiscalDateEnding r)) ?kept)"
  let ?vals = "rev (map (\<lambda>r. the (report_margin ops pf r)) ?kept)"
  have "length ?years = length ?vals" by simp
  from fallible_stats_total [OF assms(1) this, of ?vals]
  obtain cagr cv labels where "fallible_stats ops ?vals ?years ?vals = Inr (cagr, cv, labels)"
    by (metis prod_cases3)
  moreover from assms(2) have "annualReports d \<noteq> []" by auto
  ultimately show ?thesis
    using assms(2)
    by (simp add: calculate_margin_stats_def Let_def YEARS_TO_ANALYZE_def margin_annual_fold)
qed

lemma calculate_margin_stats_Some:
  assumes "calculate_margin_stats ops pf cy idata = Inr (Some r)"
  obtains d where "idata = Some d"
    "2 \<le> length (filter (margin_report_ok ops pf) (take 5 (annualReports d)))"
    "margin_annual_years r = rev (map (\<lambda>r. entry_year (ir_fiscalDateEnding r))
       (filter (margin_report_ok ops pf) (take 5 (annualReports d))))"
    "margin_annual_values r = rev (map (\<lambda>r. the (report_margin ops pf r))
       (filter (margin_report_ok ops pf) (take 5 (annualReports d))))"
proof (cases idata)
  case None
  with assms show ?thesis by (simp add: calculate_margin_stats_def)
next
  case (Some d)
  with assms calculate_margin_stats_None [where pf = pf and d = d and ops = ops and cy = cy]
  have l: "2 \<le> length (filter (margin_report_ok ops pf) (take 5 (annualReports d)))"
    by (cases "2 \<le> length (filter (margin_report_ok ops pf) (take 5 (annualReports d)))") simp_all
  from calculate_margin_stats_result [OF l, where cy = cy ] assms Some l that show ?thesis
    by auto
qed

lemma calculate_margin_stats_error:
  assumes "calculate_margin_stats ops pf cy idata = Inl e"
  shows "e = OverflowError"
proof (cases idata)
  case None
  with assms show ?thesis by (simp add: calculate_margin_stats_def)
next
  case (Some d)
  with assms calculate_margin_stats_None [where pf = pf and d = d and ops = ops and cy = cy]
  have l: "2 \<le> length (filter (margin_report_ok ops pf) (take 5 (annualReports d)))"
    by (cases "2 \<le> length (filter (margin_report_ok ops pf) (take 5 (annualReports d)))") simp_all
  from calculate_margin_stats_result [OF l, where cy = cy ] assms Some show ?thesis
    by auto
qed

subsection \<open>Price\<close>

lemma length_sort_newest_first [simp]: "length (sort_newest_first xs) = length xs"
  by (simp add: sort_newest_first_def)

lemma sort_newest_first_sorted: "sorted (rev (map fst (sort_newest_first xs)))"
  by (simp add: sort_newest_first_def rev_map)

lemma mset_sort_newest_first: "mset (sort_newest_first xs) = mset xs"
  by (simp add: sort_newest_first_def)

lemma sort_newest_first_stable:
  "filter (\<lambda>b. fst b = k) (sort_newest_first xs) = filter (\<lambda>b. fst b = k) xs"
proof -
  have "filter (\<lambda>b. fst b = k) (sort_newest_first xs) =
      rev (filter (\<lambda>b. fst b = k) (sort_key fst (rev xs)))"
    by (simp add: sort_newest_first_def rev_filter)
  also have "\<dots> = rev (filter (\<lambda>b. fst b = k) (rev xs))"
    by (simp only: sort_key_stable)
  finally show ?thesis
    by (simp add: rev_filter)
qed

lemma py_max_fold_mem: "fold (\<lambda>x m. if flt ops m x then x else m) xs a \<in> set (a # xs)"
  by (induction xs arbitrary: a) auto

lemma py_min_fold_mem: "fold (\<lambda>x m. if flt ops x m then x else m) xs a \<in> set (a # xs)"
  by (induction xs arbitrary: a) auto

lemma py_max_mem: "xs \<noteq> [] \<Longrightarrow> py_max ops xs \<in> set xs"
  using py_max_fold_mem [of ops "tl xs" "hd xs"] by (cases xs) (simp_all add: py_max_def)

lemma py_min_mem: "xs \<noteq> [] \<Longrightarrow> py_min ops xs \<in> set xs"
  using py_min_fold_mem [of ops "tl xs" "hd xs"] by (cases xs) (simp_all add: py_min_def)

lemma py_max_fold_greatest:
  assumes "flt_order ops" and "\<forall>x \<in> S. \<not> flt ops a x"
  shows "\<forall>x \<in> S \<union> set xs. \<not> flt ops (fold (\<lambda>x m. if flt ops m x then x else m) xs a) x"
  using assms(2)
proof (induction xs arbitrary: a S)
  case Nil
  then show ?case by simp
next
  case (Cons y ys)
  let ?a = "if flt ops a y then y else a"
  have "\<forall>x \<in> S \<union> {y}. \<not> flt ops ?a x"
    using Cons.prems assms(1) unfolding flt_order_def by (auto; blast)
  from Cons.IH [OF this] show ?case by simp
qed

lemma py_min_fold_least:
  assumes "flt_order ops" and "\<forall>x \<in> S. \<not> flt ops x a"
  shows "\<forall>x \<in> S \<union> set xs. \<not> flt ops x (fold (\<lambda>x m. if flt ops x m then x else m) xs a)"
  using assms(2)
proof (induction xs arbitrary: a S)
  case Nil
  then show ?case by simp
next
  case (Cons y ys)
  let ?a = "if flt ops y a then y else a"
  have "\<forall>x \<in> S \<union> {y}. \<not> flt ops x ?a"
    using Cons.prems assms(1) unfolding flt_order_def by (auto; blast)
  from Cons.IH [OF this] show ?case by simp
qed

lemma py_max_greatest:
  assumes "flt_order ops" "x \<in> set xs"
  shows "\<not> flt ops (py_max ops xs) x"
proof (cases xs)
  case Nil
  with assms show ?thesis by simp
next
  case (Cons a as)
  have "\<forall>x \<in> {a}. \<not> flt ops a x"
    using assms(1) by (simp add: flt_order_def)
  from py_max_fold_greatest [OF assms(1) this, of as] assms(2) Cons show ?thesis
    by (auto simp: py_max_def)
qed

lemma py_min_least:
  assumes "flt_order ops" "x \<in> set xs"
  shows "\<not> flt ops x (py_min ops xs)"
proof (cases xs)
  case Nil
  with assms show ?thesis by simp
next
  case (Cons a as)
  have "\<forall>x \<in> {a}. \<not> flt ops x a"
    using assms(1) by (simp add: flt_order_def)
  from py_min_fold_least [OF assms(1) this, of as] assms(2) Cons show ?thesis
    by (auto simp: py_min_def)
qed

lemma flt_order_exact: "flt_order exact_ops"
  by (simp add: flt_order_def)

lemma valid_closes_Nil [simp]: "valid_closes pf [] = []"
  by (simp add: valid_closes_def)

lemma length_monthly_closes:
  "length (monthly_closes pf ts) = min 60 (length (valid_closes pf ts))"
  by (simp add: monthly_closes_def monthly_bars_def min.commute)

lemma calculate_price_stats_None:
  "length (valid_closes pf (monthly_adjusted d)) < 2
     \<Longrightarrow> calculate_price_stats ops pf (Some d) = Inr None"
  by (simp add: calculate_price_stats_def Let_def)

lemma calculate_price_stats_result:
  assumes "2 \<le> length (valid_closes pf (monthly_adjusted d))"
  defines "monthly \<equiv> take 60 (sort_newest_first (valid_closes pf (monthly_adjusted d)))"
  defines "closes \<equiv> monthly_closes pf (monthly_adjusted d)"
  shows "calculate_price_stats ops pf (Some d) = Inl OverflowError
     \<or> (\<exists>r. calculate_price_stats ops pf (Some d) = Inr (Some r)
          \<and> price_current r = closes ! 0
          \<and> price_vs_yoy_pct r =
              (if 12 < length closes \<and> \<not> is_zero ops (closes ! 12)
               then Some (pct_change ops (closes ! 0) (closes ! 12)) else None)
          \<and> price_high_52w r = Some (py_max ops (take 12 closes))
          \<and> price_low_52w r = Some (py_min ops (take 12 closes))
          \<and> price_annual_years r = last_n 5 (sort (map fst (annual_prices_of monthly)))
          \<and> price_annual_values r =
              map (\<lambda>y. the (map_of (annual_prices_of monthly) y)) (price_annual_years r))"
proof -
  let ?years = "last_n 5 (sort (map fst (annual_prices_of monthly)))"
  let ?vals = "map (\<lambda>y. the (map_of (annual_prices_of monthly) y)) ?years"
  have ne: "monthly_adjusted d \<noteq> []"
    using assms(1) by auto
  have len: "\<not> length (valid_closes pf (monthly_adjusted d)) < 2"
    using assms(1) by simp
  have c: "map snd monthly = closes"
    by (simp add: closes_def monthly_def monthly_closes_def monthly_bars_def)
  have l2: "2 \<le> length closes"
    using assms(1) by (simp add: closes_def length_monthly_closes)
  then have t: "take (min 12 (length closes)) closes = take 12 closes" "take 12 closes \<noteq> []"
    by (auto simp: min_def)
  have c0: "closes \<noteq> []"
    using l2 by auto
  have lm: "length monthly = length closes"
    using c [symmetric] by simp
  have m0: "monthly \<noteq> []"
    using c c0 by auto
  have eq: "length ?years = length ?vals" by simp
  show ?thesis
  proof (cases "fallible_stats ops (rev closes) ?years ?vals")
    case (Inl e)
    from fallible_stats_error [OF eq Inl] Inl show ?thesis
      unfolding calculate_price_stats_def
      by (simp add: Let_def ne len YEARS_TO_ANALYZE_def c c0 lm m0 t flip: monthly_def)
  next
    case (Inr t3)
    then obtain cagr cv labels
      where "fallible_stats ops (rev closes) ?years ?vals = Inr (cagr, cv, labels)"
      by (cases t3) auto
    then show ?thesis
      unfolding calculate_price_stats_def
      by (simp add: Let_def ne len YEARS_TO_ANALYZE_def c c0 lm m0 t flip: monthly_def)
  qed
qed

lemma calculate_price_stats_total:
  assumes "pow_total ops" "2 \<le> length (valid_closes pf (monthly_adjusted d))"
  shows "calculate_price_stats ops pf (Some d) \<noteq> Inl OverflowError"
proof -
  let ?monthly = "take 60 (sort_newest_first (valid_closes pf (monthly_adjusted d)))"
  let ?closes = "map snd ?monthly"
  let ?years = "last_n 5 (sort (map fst (annual_prices_of ?monthly)))"
  let ?vals = "map (\<lambda>y. the (map_of (annual_prices_of ?monthly) y)) ?years"
  have ne: "monthly_adjusted d \<noteq> []"
    using assms(2) by auto
  have len: "\<not> length (valid_closes pf (monthly_adjusted d)) < 2"
    using assms(2) by simp
  have eq: "length ?years = length ?vals" by simp
  from fallible_stats_total [OF assms(1) eq, of "rev ?closes"]
  obtain cagr cv labels
    where "fallible_stats ops (rev ?closes) ?years ?vals = Inr (cagr, cv, labels)"
    by (metis prod_cases3)
  then show ?thesis
    unfolding calculate_price_stats_def
    by (simp add: Let_def ne len YEARS_TO_ANALYZE_def)
qed

lemma calculate_price_stats_error:
  assumes "calculate_price_stats ops pf pd = Inl e"
  shows "e = OverflowError"
proof (cases pd)
  case None
  with assms show ?thesis by (simp add: calculate_price_stats_def)
next
  case (Some d)
  with assms calculate_price_stats_None [where pf = pf and d = d and ops = ops]
  have "2 \<le> length (valid_closes pf (monthly_adjusted d))"
    by (cases "2 \<le> length (valid_closes pf (monthly_adjusted d))") simp_all
  from calculate_price_stats_result [OF this, where ops = ops] assms Some show ?thesis
    by auto
qed

lemma last_n_sort:
  "length (last_n 5 (sort xs)) \<le> 5" "sorted (last_n 5 (sort (xs :: string list)))"
  by (simp_all add: last_n_def)

lemma calculate_price_stats_Some:
  assumes "calculate_price_stats ops pf pd = Inr (Some p)"
  shows "length (price_annual_years p) = length (price_annual_values p)
     \<and> length (price_annual_years p) \<le> 5 \<and> sorted (price_annual_years p)"
proof (cases pd)
  case None
  with assms show ?thesis by (simp add: calculate_price_stats_def)
next
  case (Some d)
  with assms calculate_price_stats_None [where pf = pf and d = d and ops = ops]
  have "2 \<le> length (valid_closes pf (monthly_adjusted d))"
    by (cases "2 \<le> length (valid_closes pf (monthly_adjusted d))") simp_all
  from calculate_price_stats_result [OF this, where ops = ops] assms Some show ?thesis
    by (auto simp: last_n_sort)
qed

subsection \<open>P/E\<close>

lemma map_of_fold_update:
  "map_of (fold (\<lambda>kv. AList.update (fst kv) (snd kv)) xs acc) = map_of acc ++ map_of (rev xs)"
proof (induction xs arbitrary: acc)
  case Nil
  then show ?case by simp
next
  case (Cons x xs)
  show ?case
    by (cases x) (auto simp: Cons.IH update_conv' map_add_def fun_eq_iff split: option.splits)
qed

lemma series_value_eq: "series_value ks vs = map_of (rev (zip ks vs))"
  by (rule ext) (simp add: series_value_def)

lemma map_of_dict_zip: "map_of (dict_zip ks vs) = series_value ks vs"
  by (simp add: dict_zip_def series_value_eq map_of_fold_update)

lemma keys_dict_zip: "fst ` set (dict_zip ks vs) = dom (series_value ks vs)"
  by (simp add: dom_map_of_conv_image_fst flip: map_of_dict_zip)

lemma dom_series_value:
  assumes "length ks = length vs"
  shows "dom (series_value ks vs) = set ks"
proof -
  have "dom (series_value ks vs) = set (map fst (zip ks vs))"
    by (simp add: series_value_eq dom_map_of_conv_image_fst)
  also have "\<dots> = set ks"
    using assms by (simp only: map_fst_zip)
  finally show ?thesis .
qed

lemma dom_series_value_subset: "dom (series_value ks vs) \<subseteq> set ks"
  by (auto simp: series_value_eq dom_map_of_conv_image_fst dest: set_zip_leftD)

lemma pe_fold:
  "fold (pe_step ops pa ea) ys ([], []) =
     (map (\<lambda>y. fround ops (fdiv ops (the (map_of pa y)) (the (map_of ea y))) 2)
        (filter (\<lambda>y. is_positive ops (the (map_of ea y))) ys),
      filter (\<lambda>y. is_positive ops (the (map_of ea y))) ys)"
proof -
  have "pe_step ops pa ea =
      (\<lambda>y st. if is_positive ops (the (map_of ea y))
         then (fst st @ [fround ops (fdiv ops (the (map_of pa y)) (the (map_of ea y))) 2],
               snd st @ [y])
         else st)"
    by (intro ext) (simp add: pe_step_def Let_def)
  then show ?thesis
    by (simp add: fold_parallel)
qed

lemma calculate_pe_stats_missing:
  "calculate_pe_stats ops None es = Inr None" "calculate_pe_stats ops ps None = Inr None"
  by (simp_all add: calculate_pe_stats_def split: option.splits)

lemma calculate_pe_stats_result:
  defines "eps_of \<equiv> \<lambda>es y. the (series_value (eps_annual_years es) (eps_annual_values es) y)"
  defines "price_of \<equiv> \<lambda>ps y. the (series_value (price_annual_years ps) (price_annual_values ps) y)"
  shows "calculate_pe_stats ops (Some ps) (Some es) = Inl OverflowError
     \<or> (\<exists>r. calculate_pe_stats ops (Some ps) (Some es) = Inr (Some r)
          \<and> pe_trailing_pe r = trailing_pe_of ops (price_current ps) (eps_ttm es)
          \<and> pe_annual_years r =
              filter (\<lambda>y. is_positive ops (eps_of es y))
                (sorted_list_of_set
                   (dom (series_value (price_annual_years ps) (price_annual_values ps))
                    \<inter> dom (series_value (eps_annual_years es) (eps_annual_values es))))
          \<and> pe_annual_values r =
              map (\<lambda>y. fround ops (fdiv ops (price_of ps y) (eps_of es y)) 2) (pe_annual_years r))"
proof -
  let ?pa = "dict_zip (price_annual_years ps) (price_annual_values ps)"
  let ?ea = "dict_zip (eps_annual_years es) (eps_annual_values es)"
  let ?common = "sorted_list_of_set (set (map fst ?pa) \<inter> set (map fst ?ea))"
  let ?years = "filter (\<lambda>y. is_positive ops (the (map_of ?ea y))) ?common"
  let ?vals = "map (\<lambda>y. fround ops (fdiv ops (the (map_of ?pa y)) (the (map_of ?ea y))) 2) ?years"
  have eq: "length ?years = length ?vals" by simp
  show ?thesis
  proof (cases "fallible_stats ops ?vals ?years ?vals")
    case (Inl e)
    from fallible_stats_error [OF eq Inl] Inl show ?thesis
      unfolding calculate_pe_stats_def
      by (simp add: Let_def pe_fold)
  next
    case (Inr t3)
    then obtain cagr cv labels
      where "fallible_stats ops ?vals ?years ?vals = Inr (cagr, cv, labels)"
      by (cases t3) auto
    then show ?thesis
      unfolding calculate_pe_stats_def
      by (simp add: Let_def pe_fold eps_of_def price_of_def map_of_dict_zip keys_dict_zip)
  qed
qed

lemma calculate_pe_stats_total:
  assumes "pow_total ops"
  shows "calculate_pe_stats ops (Some ps) (Some es) \<noteq> Inl OverflowError"
proof -
  let ?pa = "dict_zip (price_annual_years ps) (price_annual_values ps)"
  let ?ea = "dict_zip (eps_annual_years es) (eps_annual_values es)"
  let ?common = "sorted_list_of_set (set (map fst ?pa) \<inter> set (map fst ?ea))"
  let ?years = "filter (\<lambda>y. is_positive ops (the (map_of ?ea y))) ?common"
  let ?vals = "map (\<lambda>y. fround ops (fdiv ops (the (map_of ?pa y)) (the (map_of ?ea y))) 2) ?years"
  have eq: "length ?years = length ?vals" by simp
  from fallible_stats_total [OF assms eq, of ?vals]
  obtain cagr cv labels
    where "fallible_stats ops ?vals ?years ?vals = Inr (cagr, cv, labels)"
    by (metis prod_cases3)
  then show ?thesis
    unfolding calculate_pe_stats_def
    by (simp add: Let_def pe_fold)
qed

lemma calculate_pe_stats_error:
  assumes "calculate_pe_stats ops ps es = Inl e"
  shows "e = OverflowError"
proof (cases "ps = None \<or> es = None")
  case True
  with assms show ?thesis by (auto simp: calculate_pe_stats_missing)
next
  case False
  then obtain p q where "ps = Some p" "es = Some q" by auto
  with calculate_pe_stats_result [of ops p q] assms show ?thesis by auto
qed

lemma calculate_pe_stats_Some:
  assumes "calculate_pe_stats ops (Some ps) es = Inr (Some q)"
  shows "length (pe_annual_years q) = length (pe_annual_values q)
     \<and> length (pe_annual_years q) \<le> length (price_annual_years ps)
     \<and> sorted (pe_annual_years q)"
proof (cases es)
  case None
  with assms show ?thesis by (simp add: calculate_pe_stats_missing)
next
  case (Some e)
  let ?P = "dom (series_value (price_annual_years ps) (price_annual_values ps))"
  let ?E = "dom (series_value (eps_annual_years e) (eps_annual_values e))"
  from calculate_pe_stats_result [of ops ps e] assms Some
  obtain ok where q: "pe_annual_years q = filter ok (sorted_list_of_set (?P \<inter> ?E))"
    "pe_annual_values q = map (\<lambda>y. fround ops (fdiv ops
        (the (series_value (price_annual_years ps) (price_annual_values ps) y))
        (the (series_value (eps_annual_years e) (eps_annual_values e) y))) 2) (pe_annual_years q)"
    by auto
  have fin: "finite (?P \<inter> ?E)"
    by (simp add: series_value_eq finite_dom_map_of)
  have "length (pe_annual_years q) \<le> length (sorted_list_of_set (?P \<inter> ?E))"
    unfolding q(1) by (rule length_filter_le)
  also have "\<dots> = card (?P \<inter> ?E)"
    by simp
  also have "\<dots> \<le> card (set (price_annual_years ps))"
    using dom_series_value_subset [of "price_annual_years ps" "price_annual_values ps"]
    by (intro card_mono) auto
  also have "\<dots> \<le> length (price_annual_years ps)"
    by (rule card_length)
  finally have "length (pe_annual_years q) \<le> length (price_annual_years ps)" .
  moreover have "sorted (pe_annual_years q)"
    unfolding q(1) using sorted_filter [of id "sorted_list_of_set (?P \<inter> ?E)" ok] by simp
  moreover have "length (pe_annual_years q) = length (pe_annual_values q)"
    by (subst q(2)) simp
  ultimately show ?thesis by simp
qed

subsection \<open>Reading the outlier labels\<close>

text \<open>
  Claim C10: for a list with no \<open>None\<close> entry, every index that \<open>detect_outliers\<close> returns is
  a valid index into the list; hence reading the labels \<open>annual_years[i]\<close> at those indices,
  the labels being as many as the values, never raises \<^verbatim>\<open>IndexError\<close>, and none of the five
  calculators raises \<^verbatim>\<open>IndexError\<close>.
\<close>

theorem outlier_indices_in_range:
  "(\<forall>idxs. detect_outliers ops (map Some vals) = Inr idxs \<longrightarrow> (\<forall>i \<in> set idxs. i < length vals))
   \<and> (length years = length vals \<longrightarrow>
        outlier_labels ops years vals =
          (case detect_outliers ops (map Some vals) of
             Inl e \<Rightarrow> Inl e
           | Inr idxs \<Rightarrow> Inr (map ((!) years) idxs))
        \<and> outlier_labels ops years vals \<noteq> Inl IndexError)
   \<and> calculate_price_stats ops pf pd \<noteq> Inl IndexError
   \<and> calculate_eps_stats ops pf ed \<noteq> Inl IndexError
   \<and> calculate_revenue_stats ops pf cy idata \<noteq> Inl IndexError
   \<and> calculate_margin_stats ops pf cy idata \<noteq> Inl IndexError
   \<and> calculate_pe_stats ops ps es \<noteq> Inl IndexError"
proof -
  have a: "\<forall>idxs. detect_outliers ops (map Some vals) = Inr idxs
      \<longrightarrow> (\<forall>i \<in> set idxs. i < length vals)"
    using detect_outliers_less [of ops "map Some vals"] by auto
  have b: "outlier_labels ops years vals =
      (case detect_outliers ops (map Some vals) of
         Inl e \<Rightarrow> Inl e
       | Inr idxs \<Rightarrow> Inr (map ((!) years) idxs))"
    "outlier_labels ops years vals \<noteq> Inl IndexError"
    if "length years = length vals"
    using that outlier_labels_error [OF that, of ops IndexError]
    by (auto simp: outlier_labels_in_range bind_err_def)
  have c: "calculate_price_stats ops pf pd \<noteq> Inl IndexError"
    "calculate_eps_stats ops pf ed \<noteq> Inl IndexError"
    "calculate_revenue_stats ops pf cy idata \<noteq> Inl IndexError"
    "calculate_margin_stats ops pf cy idata \<noteq> Inl IndexError"
    "calculate_pe_stats ops ps es \<noteq> Inl IndexError"
    using calculate_price_stats_error [of ops pf pd IndexError]
      calculate_eps_stats_error [of ops pf ed IndexError]
      calculate_revenue_stats_error [of ops pf cy idata IndexError]
      calculate_margin_stats_error [of ops pf cy idata IndexError]
      calculate_pe_stats_error [of ops ps es IndexError]
    by auto
  from a b c show ?thesis
    by blast
qed

theorem outlier_indices_in_range_witness:
  "detect_outliers exact_ops (map Some [4, 4, 4, 4, 4, 90]) = Inr [5]
   \<and> outlier_labels exact_ops [''2019'', ''2020'', ''2021'', ''2022'', ''2023'', ''2024'']
       [4, 4, 4, 4, 4, 90] = Inr [''2024'']"
proof -
  have d: "detect_outliers exact_ops (map Some [4, 4, 4, 4, 4, 90]) = Inr [5]"
    by (simp add: detect_outliers_exact exact_variance_def exact_mean_def power2_eq_square)
  show ?thesis
    using outlier_indices_in_range
      [of exact_ops "[4, 4, 4, 4, 4, 90]" "[''2019'', ''2020'', ''2021'', ''2022'', ''2023'', ''2024'']"]
    unfolding d by simp
qed

subsection \<open>Insufficient inputs\<close>

lemma demo_quarters:
  "safe_float demo_float (ee_reportedEPS (earnings_of d ''1.50'')) = Some (3 / 2)"
  by (simp add: safe_float_def earnings_of_def demo_float_def)

lemma calculate_eps_stats_exact:
  assumes "2 \<le> length (quarterlyEarnings d)"
    and "safe_float pf (ee_reportedEPS (quarterlyEarnings d ! 0)) = Some latest"
  shows "\<exists>r. calculate_eps_stats exact_ops pf (Some d) = Inr (Some r)
          \<and> eps_latest r = latest
          \<and> eps_ttm r = ttm_of exact_ops pf (quarterlyEarnings d)
          \<and> eps_annual_years r = rev (map (\<lambda>e. entry_year (ee_fiscalDateEnding e))
               (filter (eps_entry_ok pf) (take 5 (annualEarnings d))))
          \<and> eps_annual_values r = rev (map (\<lambda>e. the (safe_float pf (ee_reportedEPS e)))
               (filter (eps_entry_ok pf) (take 5 (annualEarnings d))))"
  using calculate_eps_stats_result [OF assms, of exact_ops]
    calculate_eps_stats_total [OF pow_total_exact assms]
  by simp

text \<open>
  Claim C1, as stated, fails for the EPS calculator: with two quarters whose EPS parse and an
  empty \<open>annualEarnings\<close> it returns a record, whose annual series is empty.
\<close>

theorem eps_without_annual_counterexample:
  "annualEarnings eps_without_annual = []
   \<and> calculate_eps_stats exact_ops demo_float (Some eps_without_annual) \<noteq> Inr None
   \<and> (\<exists>r. calculate_eps_stats exact_ops demo_float (Some eps_without_annual) = Inr (Some r)
         \<and> eps_latest r = 3 / 2 \<and> eps_annual_years r = [])"
proof -
  have "2 \<le> length (quarterlyEarnings eps_without_annual)"
    "safe_float demo_float (ee_reportedEPS (quarterlyEarnings eps_without_annual ! 0)) = Some (3 / 2)"
    by (simp_all add: eps_without_annual_def demo_quarters)
  from calculate_eps_stats_exact [OF this] show ?thesis
    by (auto simp: eps_without_annual_def)
qed

text \<open>
  Claim C1, amended: a calculator whose required inputs are absent returns \<open>None\<close> and does
  not raise. The price calculator does so for a missing payload and for fewer than two monthly
  closes that parse; the EPS calculator for a missing payload, and otherwise exactly when there
  are fewer than two quarterly entries or the latest reported EPS does not parse (an empty
  \<open>annualEarnings\<close> is not among these); the revenue and margin calculators for a missing
  payload and for an empty \<open>annualReports\<close>; the P/E calculator when either of its two
  records is missing.
\<close>

theorem insufficient_inputs_give_None:
  "calculate_price_stats ops pf None = Inr None
   \<and> (length (valid_closes pf (monthly_adjusted pd)) < 2 \<longrightarrow>
        calculate_price_stats ops pf (Some pd) = Inr None)
   \<and> calculate_eps_stats ops pf None = Inr None
   \<and> (calculate_eps_stats ops pf (Some ed) = Inr None \<longleftrightarrow>
        length (quarterlyEarnings ed) < 2
        \<or> safe_float pf (ee_reportedEPS (quarterlyEarnings ed ! 0)) = None)
   \<and> calculate_revenue_stats ops pf cy None = Inr None
   \<and> (annualReports idata = [] \<longrightarrow> calculate_revenue_stats ops pf cy (Some idata) = Inr None)
   \<and> calculate_margin_stats ops pf cy None = Inr None
   \<and> (annualReports idata = [] \<longrightarrow> calculate_margin_stats ops pf cy (Some idata) = Inr None)
   \<and> calculate_pe_stats ops None es = Inr None
   \<and> calculate_pe_stats ops ps None = Inr None"
  using calculate_eps_stats_None_iff [of ops pf ed]
  by (simp add: calculate_price_stats_None calculate_pe_stats_missing)
     (simp add: calculate_price_stats_def calculate_eps_stats_def calculate_revenue_stats_def
        calculate_margin_stats_def)

theorem insufficient_inputs_give_None_witness:
  "calculate_price_stats exact_ops demo_float
       (Some \<lparr>monthly_adjusted = [(''2024-06-28'', Some ''None'')]\<rparr>) = Inr None
   \<and> calculate_eps_stats exact_ops demo_float
       (Some \<lparr>quarterlyEarnings = [earnings_of ''2024-06-30'' ''1.50''],
              annualEarnings = [earnings_of ''2023-12-31'' ''5.00'']\<rparr>) = Inr None
   \<and> calculate_revenue_stats exact_ops demo_float ''2024''
       (Some \<lparr>annualReports = [], quarterlyReports = [report_of ''2024-03-31'' ''1000'' ''200'']\<rparr>)
     = Inr None
   \<and> calculate_margin_stats exact_ops demo_float ''2024''
       (Some \<lparr>annualReports = [], quarterlyReports = [report_of ''2024-03-31'' ''1000'' ''200'']\<rparr>)
     = Inr None"
  using insufficient_inputs_give_None
    [of exact_ops demo_float "\<lparr>monthly_adjusted = [(''2024-06-28'', Some ''None'')]\<rparr>"
      "\<lparr>quarterlyEarnings = [earnings_of ''2024-06-30'' ''1.50''],
        annualEarnings = [earnings_of ''2023-12-31'' ''5.00'']\<rparr>"
      "''2024''"
      "\<lparr>annualReports = [], quarterlyReports = [report_of ''2024-03-31'' ''1000'' ''200'']\<rparr>"]
  by (simp add: valid_closes_def safe_float_def)

subsection \<open>Year-over-year change and the 52-week range\<close>

text \<open>
  Claim C5: let \<open>bars\<close> be the bars of the payload whose close parses, sorted by date, newest
  first (in descending order of the date, a permutation of the valid bars that keeps bars of
  one date in their order), and \<open>closes\<close> the closes of the first 60 of them, at least two.
  Then \<open>calculate_price_stats\<close> returns a record unless \<^verbatim>\<open>**\<close> raises \<^verbatim>\<open>OverflowError\<close>. In
  the record \<open>vs_yoy_pct\<close> is \<^verbatim>\<open>round((closes[0] - closes[12]) / closes[12] * 100, 2)\<close>, each
  operation that of the floats, absent when \<open>closes[12]\<close> is zero or there are fewer than 13
  closes; \<open>high_52w\<close> and \<open>low_52w\<close> are \<^verbatim>\<open>max\<close> and \<^verbatim>\<open>min\<close> of \<open>closes[0..11]\<close> only: each is
  one of these twelve closes, and when \<^verbatim>\<open><\<close> is irreflexive and transitive none of the twelve
  is above the high or below the low.
\<close>

theorem price_yoy_and_52w_range:
  assumes "bars = monthly_bars pf (monthly_adjusted d)"
    and "closes = map snd (take 60 bars)"
    and "2 \<le> length closes"
  shows "sorted (rev (map fst bars))
     \<and> mset bars = mset (valid_closes pf (monthly_adjusted d))
     \<and> (\<forall>k. filter (\<lambda>b. fst b = k) bars = filter (\<lambda>b. fst b = k) (valid_closes pf (monthly_adjusted d)))
     \<and> (calculate_price_stats ops pf (Some d) = Inl OverflowError
        \<or> (\<exists>r. calculate_price_stats ops pf (Some d) = Inr (Some r)
             \<and> price_vs_yoy_pct r =
                 (if 13 \<le> length closes \<and> \<not> feq ops (closes ! 12) (flit ops 0)
                  then Some (fround ops
                         (fmul ops (fdiv ops (fsub ops (closes ! 0) (closes ! 12)) (closes ! 12))
                            (flit ops 100)) 2)
                  else None)
             \<and> price_high_52w r = Some (py_max ops (take 12 closes))
             \<and> price_low_52w r = Some (py_min ops (take 12 closes))))
     \<and> (pow_total ops \<longrightarrow> calculate_price_stats ops pf (Some d) \<noteq> Inl OverflowError)
     \<and> py_max ops (take 12 closes) \<in> set (take 12 closes)
     \<and> py_min ops (take 12 closes) \<in> set (take 12 closes)
     \<and> (flt_order ops \<longrightarrow>
          (\<forall>x \<in> set (take 12 closes).
             \<not> flt ops (py_max ops (take 12 closes)) x \<and> \<not> flt ops x (py_min ops (take 12 closes))))"
proof -
  have c: "closes = monthly_closes pf (monthly_adjusted d)"
    by (simp add: assms(1,2) monthly_closes_def)
  have v: "2 \<le> length (valid_closes pf (monthly_adjusted d))"
    using assms(3) by (simp add: c length_monthly_closes)
  have ne: "take 12 closes \<noteq> []"
    using assms(3) by auto
  have thirteen: "12 < length closes \<longleftrightarrow> 13 \<le> length closes"
    by auto
  have "sorted (rev (map fst bars))"
    unfolding assms(1) monthly_bars_def by (rule sort_newest_first_sorted)
  moreover have "mset bars = mset (valid_closes pf (monthly_adjusted d))"
    unfolding assms(1) monthly_bars_def by (rule mset_sort_newest_first)
  moreover have "\<forall>k. filter (\<lambda>b. fst b = k) bars =
      filter (\<lambda>b. fst b = k) (valid_closes pf (monthly_adjusted d))"
    unfolding assms(1) monthly_bars_def by (simp add: sort_newest_first_stable)
  moreover have "calculate_price_stats ops pf (Some d) = Inl OverflowError
        \<or> (\<exists>r. calculate_price_stats ops pf (Some d) = Inr (Some r)
             \<and> price_vs_yoy_pct r =
                 (if 13 \<le> length closes \<and> \<not> feq ops (closes ! 12) (flit ops 0)
                  then Some (fround ops
                         (fmul ops (fdiv ops (fsub ops (closes ! 0) (closes ! 12)) (closes ! 12))
                            (flit ops 100)) 2)
                  else None)
             \<and> price_high_52w r = Some (py_max ops (take 12 closes))
             \<and> price_low_52w r = Some (py_min ops (take 12 closes)))"
    using calculate_price_stats_result [OF v, of ops]
    unfolding c [symmetric] thirteen
    by (auto simp: pct_change_def percent_of_def is_zero_def)
  moreover have "pow_total ops \<longrightarrow> calculate_price_stats ops pf (Some d) \<noteq> Inl OverflowError"
    using calculate_price_stats_total [OF _ v] by blast
  moreover have "py_max ops (take 12 closes) \<in> set (take 12 closes)"
    "py_min ops (take 12 closes) \<in> set (take 12 closes)"
    using ne by (rule py_max_mem, rule py_min_mem)
  moreover have "flt_order ops \<longrightarrow>
      (\<forall>x \<in> set (take 12 closes).
         \<not> flt ops (py_max ops (take 12 closes)) x \<and> \<not> flt ops x (py_min ops (take 12 closes)))"
    using py_max_greatest [of ops _ "take 12 closes"] py_min_least [of ops _ "take 12 closes"]
    by blast
  ultimately show ?thesis
    by blast
qed

lemma py_round_303_50: "py_round (200 / 33) 2 = 303 / 50"
  by (simp add: py_round_def round_half_even_def)

theorem price_yoy_and_52w_range_witness:
  "monthly_bars demo_float (monthly_adjusted prices_13_months) =
     [(''2025-01-31'', 105), (''2024-12-31'', 111), (''2024-11-29'', 112),
      (''2024-10-31'', 103), (''2024-09-30'', 106), (''2024-08-30'', 107),
      (''2024-07-31'', 101), (''2024-06-28'', 108), (''2024-05-31'', 109),
      (''2024-04-30'', 110), (''2024-03-28'', 104), (''2024-02-29'', 102),
      (''2024-01-31'', 99)]
   \<and> (\<exists>r. calculate_price_stats exact_ops demo_float (Some prices_13_months) = Inr (Some r)
         \<and> price_vs_yoy_pct r = Some (303 / 50)
         \<and> price_high_52w r = Some 112
         \<and> price_low_52w r = Some 101)"
proof -
  have v: "valid_closes demo_float (monthly_adjusted prices_13_months) =
      [(''2024-06-28'', 108), (''2025-01-31'', 105), (''2024-01-31'', 99),
       (''2024-11-29'', 112), (''2024-03-28'', 104), (''2024-12-31'', 111),
       (''2024-09-30'', 106), (''2024-02-29'', 102), (''2024-08-30'', 107),
       (''2024-05-31'', 109), (''2024-10-31'', 103), (''2024-07-31'', 101),
       (''2024-04-30'', 110)]"
    by (simp add: valid_closes_def prices_13_months_def safe_float_def demo_float_def
        List.map_filter_simps)
  have b: "monthly_bars demo_float (monthly_adjusted prices_13_months) =
     [(''2025-01-31'', 105), (''2024-12-31'', 111), (''2024-11-29'', 112),
      (''2024-10-31'', 103), (''2024-09-30'', 106), (''2024-08-30'', 107),
      (''2024-07-31'', 101), (''2024-06-28'', 108), (''2024-05-31'', 109),
      (''2024-04-30'', 110), (''2024-03-28'', 104), (''2024-02-29'', 102),
      (''2024-01-31'', 99)]"
    unfolding monthly_bars_def v by (simp add: sort_newest_first_def)
  have m: "py_max exact_ops [105, 111, 112, 103, 106, 107, 101, 108, 109, 110, 104, 102] = 112"
    "py_min exact_ops [105, 111, 112, 103, 106, 107, 101, 108, 109, 110, 104, 102] = 101"
    by (simp_all add: py_max_def py_min_def)
  have l: "[105, 111, 112, 103, 106, 107, 101, 108, 109, 110, 104, 102, 99] =
      map snd (take 60 (monthly_bars demo_float (monthly_adjusted prices_13_months)))"
    "2 \<le> length [105, 111, 112, 103, 106, 107, 101, 108, 109, 110, 104, 102, 99 :: real]"
    by (simp_all add: b)
  note t = price_yoy_and_52w_range [OF refl l, of exact_ops]
  from t have "calculate_price_stats exact_ops demo_float (Some prices_13_months) = Inl OverflowError
      \<or> (\<exists>r. calculate_price_stats exact_ops demo_float (Some prices_13_months) = Inr (Some r)
             \<and> price_vs_yoy_pct r = Some (303 / 50)
             \<and> price_high_52w r = Some 112
             \<and> price_low_52w r = Some 101)"
    by (simp add: m py_round_303_50)
  moreover from t
  have "calculate_price_stats exact_ops demo_float (Some prices_13_months) \<noteq> Inl OverflowError"
    by (simp add: pow_total_exact)
  ultimately show ?thesis
    using b by blast
qed

subsection \<open>The annual series of a record\<close>

lemma sorted_rev_map_filter:
  assumes "sorted (rev (map f xs))"
  shows "sorted (rev (map f (filter P xs)))"
proof -
  have "sorted (map f (rev xs))"
    using assms by (simp add: rev_map)
  then have "sorted (map f (filter P (rev xs)))"
    by (rule sorted_filter)
  then show ?thesis
    by (simp add: rev_map rev_filter)
qed

text \<open>
  Claim C8, as stated, fails: the EPS calculator reverses the order of the payload and does
  not sort. For annual entries listed oldest first, its \<open>annual_years\<close> run newest to oldest.
\<close>

theorem eps_oldest_first_counterexample:
  "(\<exists>r. calculate_eps_stats exact_ops demo_float (Some eps_oldest_first) = Inr (Some r)
      \<and> eps_annual_years r = [''2023'', ''2022''])
   \<and> \<not> sorted [''2023'', ''2022'']"
proof -
  have "2 \<le> length (quarterlyEarnings eps_oldest_first)"
    "safe_float demo_float (ee_reportedEPS (quarterlyEarnings eps_oldest_first ! 0)) = Some (3 / 2)"
    by (simp_all add: eps_oldest_first_def demo_quarters)
  from calculate_eps_stats_exact [OF this] show ?thesis
    by (auto simp: eps_oldest_first_def eps_entry_ok_def entry_year_def get_or_empty_def
        earnings_of_def safe_float_def demo_float_def)
qed

text \<open>
  Claim C8, amended: every record returned by one of the five calculators has as many
  \<open>annual_years\<close> as \<open>annual_values\<close>, and at most five. The \<open>annual_years\<close> of a price record
  and of a P/E record are in ascending order; those of an EPS, revenue or margin record are
  in ascending order whenever the payload lists its first five annual entries newest first.
\<close>

theorem annual_series_invariant:
  "(calculate_price_stats ops pf pd = Inr (Some p) \<longrightarrow>
      length (price_annual_years p) = length (price_annual_values p)
      \<and> length (price_annual_years p) \<le> 5 \<and> sorted (price_annual_years p))
   \<and> (calculate_eps_stats ops pf (Some ed) = Inr (Some e) \<longrightarrow>
      length (eps_annual_years e) = length (eps_annual_values e)
      \<and> length (eps_annual_years e) \<le> 5
      \<and> (sorted (rev (map (\<lambda>x. entry_year (ee_fiscalDateEnding x)) (take 5 (annualEarnings ed))))
           \<longrightarrow> sorted (eps_annual_years e)))
   \<and> (calculate_revenue_stats ops pf cy (Some idata) = Inr (Some r) \<longrightarrow>
      length (rev_annual_years r) = length (rev_annual_values r)
      \<and> length (rev_annual_years r) \<le> 5
      \<and> (sorted (rev (map (\<lambda>x. entry_year (ir_fiscalDateEnding x)) (take 5 (annualReports idata))))
           \<longrightarrow> sorted (rev_annual_years r)))
   \<and> (calculate_margin_stats ops pf cy (Some idata) = Inr (Some m) \<longrightarrow>
      length (margin_annual_years m) = length (margin_annual_values m)
      \<and> length (margin_annual_years m) \<le> 5
      \<and> (sorted (rev (map (\<lambda>x. entry_year (ir_fiscalDateEnding x)) (take 5 (annualReports idata))))
           \<longrightarrow> sorted (margin_annual_years m)))
   \<and> (calculate_price_stats ops pf pd = Inr (Some p)
        \<and> calculate_pe_stats ops (Some p) es = Inr (Some q) \<longrightarrow>
      length (pe_annual_years q) = length (pe_annual_values q)
      \<and> length (pe_annual_years q) \<le> 5 \<and> sorted (pe_annual_years q))"
proof (intro conjI impI)
  assume "calculate_price_stats ops pf pd = Inr (Some p)"
  from calculate_price_stats_Some [OF this]
  show "length (price_annual_years p) = length (price_annual_values p)"
    "length (price_annual_years p) \<le> 5" "sorted (price_annual_years p)"
    by simp_all
next
  assume a: "calculate_eps_stats ops pf (Some ed) = Inr (Some e)"
  from a have e: "eps_annual_years e =
      rev (map (\<lambda>x. entry_year (ee_fiscalDateEnding x))
        (filter (eps_entry_ok pf) (take 5 (annualEarnings ed))))"
    "eps_annual_values e =
      rev (map (\<lambda>x. the (safe_float pf (ee_reportedEPS x)))
        (filter (eps_entry_ok pf) (take 5 (annualEarnings ed))))"
    by (auto elim!: calculate_eps_stats_Some)
  show "length (eps_annual_years e) = length (eps_annual_values e)"
    by (simp add: e)
  have "length (filter (eps_entry_ok pf) (take 5 (annualEarnings ed))) \<le> length (take 5 (annualEarnings ed))"
    by (rule length_filter_le)
  then show "length (eps_annual_years e) \<le> 5"
    by (simp add: e)
  assume "sorted (rev (map (\<lambda>x. entry_year (ee_fiscalDateEnding x)) (take 5 (annualEarnings ed))))"
  then show "sorted (eps_annual_years e)"
    unfolding e by (rule sorted_rev_map_filter)
next
  assume a: "calculate_revenue_stats ops pf cy (Some idata) = Inr (Some r)"
  from a have r: "rev_annual_years r =
      rev (map (\<lambda>x. entry_year (ir_fiscalDateEnding x))
        (filter (rev_report_ok pf) (take 5 (annualReports idata))))"
    "rev_annual_values r =
      rev (map (\<lambda>x. the (safe_float pf (ir_totalRevenue x)))
        (filter (rev_report_ok pf) (take 5 (annualReports idata))))"
    by (auto elim!: calculate_revenue_stats_Some)
  show "length (rev_annual_years r) = length (rev_annual_values r)"
    by (simp add: r)
  have "length (filter (rev_report_ok pf) (take 5 (annualReports idata))) \<le> length (take 5 (annualReports idata))"
    by (rule length_filter_le)
  then show "length (rev_annual_years r) \<le> 5"
    by (simp add: r)
  assume "sorted (rev (map (\<lambda>x. entry_year (ir_fiscalDateEnding x)) (take 5 (annualReports idata))))"
  then show "sorted (rev_annual_years r)"
    unfolding r by (rule sorted_rev_map_filter)
next
  assume a: "calculate_margin_stats ops pf cy (Some idata) = Inr (Some m)"
  from a have m: "margin_annual_years m =
      rev (map (\<lambda>x. entry_year (ir_fiscalDateEnding x))
        (filter (margin_report_ok ops pf) (take 5 (annualReports idata))))"
    "margin_annual_values m =
      rev (map (\<lambda>x. the (report_margin ops pf x))
        (filter (margin_report_ok ops pf) (take 5 (annualReports idata))))"
    by (auto elim!: calculate_margin_stats_Some)
  show "length (margin_annual_years m) = length (margin_annual_values m)"
    by (simp add: m)
  have "length (filter (margin_report_ok ops pf) (take 5 (annualReports idata))) \<le> length (take 5 (annualReports idata))"
    by (rule length_filter_le)
  then show "length (margin_annual_years m) \<le> 5"
    by (simp add: m)
  assume "sorted (rev (map (\<lambda>x. entry_year (ir_fiscalDateEnding x)) (take 5 (annualReports idata))))"
  then show "sorted (margin_annual_years m)"
    unfolding m by (rule sorted_rev_map_filter)
next
  assume a: "calculate_price_stats ops pf pd = Inr (Some p)
    \<and> calculate_pe_stats ops (Some p) es = Inr (Some q)"
  from a calculate_price_stats_Some [of ops pf pd p] have "length (price_annual_years p) \<le> 5"
    by simp
  with a calculate_pe_stats_Some [of ops p es q]
  show "length (pe_annual_years q) = length (pe_annual_values q)"
    "length (pe_annual_years q) \<le> 5" "sorted (pe_annual_years q)"
    by simp_all
qed

lemma demo_income_ok:
  "rev_report_ok demo_float (report_of d ''1200'' ''300'')"
  "rev_report_ok demo_float (report_of d ''1000'' ''200'')"
  "margin_report_ok exact_ops demo_float (report_of d ''1200'' ''300'')"
  "margin_report_ok exact_ops demo_float (report_of d ''1000'' ''200'')"
  if "take 4 d \<noteq> []"
  using that
  by (simp_all add: rev_report_ok_def margin_report_ok_def report_margin_def pct_def
      safe_divide_def report_of_def safe_float_def demo_float_def entry_year_def get_or_empty_def)

lemma prices_13_months_bars:
  "valid_closes demo_float (monthly_adjusted prices_13_months) =
      [(''2024-06-28'', 108), (''2025-01-31'', 105), (''2024-01-31'', 99),
       (''2024-11-29'', 112), (''2024-03-28'', 104), (''2024-12-31'', 111),
       (''2024-09-30'', 106), (''2024-02-29'', 102), (''2024-08-30'', 107),
       (''2024-05-31'', 109), (''2024-10-31'', 103), (''2024-07-31'', 101),
       (''2024-04-30'', 110)]"
  "sort_newest_first (valid_closes demo_float (monthly_adjusted prices_13_months)) =
     [(''2025-01-31'', 105), (''2024-12-31'', 111), (''2024-11-29'', 112),
      (''2024-10-31'', 103), (''2024-09-30'', 106), (''2024-08-30'', 107),
      (''2024-07-31'', 101), (''2024-06-28'', 108), (''2024-05-31'', 109),
      (''2024-04-30'', 110), (''2024-03-28'', 104), (''2024-02-29'', 102),
      (''2024-01-31'', 99)]"
proof -
  show v: "valid_closes demo_float (monthly_adjusted prices_13_months) =
      [(''2024-06-28'', 108), (''2025-01-31'', 105), (''2024-01-31'', 99),
       (''2024-11-29'', 112), (''2024-03-28'', 104), (''2024-12-31'', 111),
       (''2024-09-30'', 106), (''2024-02-29'', 102), (''2024-08-30'', 107),
       (''2024-05-31'', 109), (''2024-10-31'', 103), (''2024-07-31'', 101),
       (''2024-04-30'', 110)]"
    by (simp add: valid_closes_def prices_13_months_def safe_float_def demo_float_def
        List.map_filter_simps)
  show "sort_newest_first (valid_closes demo_float (monthly_adjusted prices_13_months)) =
     [(''2025-01-31'', 105), (''2024-12-31'', 111), (''2024-11-29'', 112),
      (''2024-10-31'', 103), (''2024-09-30'', 106), (''2024-08-30'', 107),
      (''2024-07-31'', 101), (''2024-06-28'', 108), (''2024-05-31'', 109),
      (''2024-04-30'', 110), (''2024-03-28'', 104), (''2024-02-29'', 102),
      (''2024-01-31'', 99)]"
    unfolding v by (simp add: sort_newest_first_def)
qed

lemma prices_13_months_annual:
  "annual_prices_of
     [(''2025-01-31'', 105 :: real), (''2024-12-31'', 111), (''2024-11-29'', 112),
      (''2024-10-31'', 103), (''2024-09-30'', 106), (''2024-08-30'', 107),
      (''2024-07-31'', 101), (''2024-06-28'', 108), (''2024-05-31'', 109),
      (''2024-04-30'', 110), (''2024-03-28'', 104), (''2024-02-29'', 102),
      (''2024-01-31'', 99)] = [(''2024'', 111), (''2025'', 105)]"
  by (simp add: annual_prices_of_def annual_price_step_def Let_def)

theorem annual_series_invariant_witness:
  "\<exists>p e r m q.
     calculate_price_stats exact_ops demo_float (Some prices_13_months) = Inr (Some p)
     \<and> calculate_eps_stats exact_ops demo_float (Some eps_newest_first) = Inr (Some e)
     \<and> calculate_revenue_stats exact_ops demo_float ''2025'' (Some income_newest_first) = Inr (Some r)
     \<and> calculate_margin_stats exact_ops demo_float ''2025'' (Some income_newest_first) = Inr (Some m)
     \<and> calculate_pe_stats exact_ops (Some p) (Some e) = Inr (Some q)
     \<and> price_annual_years p = [''2024'', ''2025'']
     \<and> length (price_annual_years p) = length (price_annual_values p)
     \<and> length (price_annual_years p) \<le> 5 \<and> sorted (price_annual_years p)
     \<and> eps_annual_years e = [''2023'', ''2024'']
     \<and> length (eps_annual_years e) = length (eps_annual_values e)
     \<and> length (eps_annual_years e) \<le> 5 \<and> sorted (eps_annual_years e)
     \<and> rev_annual_years r = [''2022'', ''2023'']
     \<and> length (rev_annual_years r) = length (rev_annual_values r)
     \<and> length (rev_annual_years r) \<le> 5 \<and> sorted (rev_annual_years r)
     \<and> margin_annual_years m = [''2022'', ''2023'']
     \<and> length (margin_annual_years m) = length (margin_annual_values m)
     \<and> length (margin_annual_years m) \<le> 5 \<and> sorted (margin_annual_years m)
     \<and> pe_annual_years q = [''2024'']
     \<and> length (pe_annual_years q) = length (pe_annual_values q)
     \<and> length (pe_annual_years q) \<le> 5 \<and> sorted (pe_annual_years q)"
proof -
  have v2: "2 \<le> length (valid_closes demo_float (monthly_adjusted prices_13_months))"
    by (simp add: prices_13_months_bars)
  have mon: "annual_prices_of
      (take 60 (sort_newest_first (valid_closes demo_float (monthly_adjusted prices_13_months))))
      = [(''2024'', 111), (''2025'', 105)]"
    unfolding prices_13_months_bars(2) by (simp add: prices_13_months_annual)
  from calculate_price_stats_result [OF v2, of exact_ops, unfolded mon]
    calculate_price_stats_total [OF pow_total_exact v2]
  obtain p where p: "calculate_price_stats exact_ops demo_float (Some prices_13_months) = Inr (Some p)"
    "price_annual_years p = [''2024'', ''2025'']"
    "price_annual_values p = [111, 105]"
    by (auto simp: last_n_def)
  have "2 \<le> length (quarterlyEarnings eps_newest_first)"
    "safe_float demo_float (ee_reportedEPS (quarterlyEarnings eps_newest_first ! 0)) = Some (3 / 2)"
    by (simp_all add: eps_newest_first_def demo_quarters)
  from calculate_eps_stats_exact [OF this]
  obtain e where e: "calculate_eps_stats exact_ops demo_float (Some eps_newest_first) = Inr (Some e)"
    "eps_annual_years e = [''2023'', ''2024'']"
    "eps_annual_values e = [4, 5]"
    by (auto simp: eps_newest_first_def eps_entry_ok_def entry_year_def get_or_empty_def
        earnings_of_def safe_float_def demo_float_def)
  have fr: "filter (rev_report_ok demo_float) (take 5 (annualReports income_newest_first))
      = annualReports income_newest_first"
    "filter (margin_report_ok exact_ops demo_float) (take 5 (annualReports income_newest_first))
      = annualReports income_newest_first"
    by (simp_all add: income_newest_first_def demo_income_ok)
  have yr: "map (\<lambda>r. entry_year (ir_fiscalDateEnding r)) (annualReports income_newest_first)
      = [''2023'', ''2022'']"
    by (simp add: income_newest_first_def report_of_def entry_year_def get_or_empty_def)
  have i2: "2 \<le> length (filter (rev_report_ok demo_float) (take 5 (annualReports income_newest_first)))"
    unfolding fr by (simp add: income_newest_first_def)
  from calculate_revenue_stats_result [OF i2, of exact_ops "''2025''", unfolded fr yr]
    calculate_revenue_stats_total [OF pow_total_exact i2, of "''2025''"]
  obtain r where r:
    "calculate_revenue_stats exact_ops demo_float ''2025'' (Some income_newest_first) = Inr (Some r)"
    "rev_annual_years r = [''2022'', ''2023'']"
    by auto
  have m2: "2 \<le> length (filter (margin_report_ok exact_ops demo_float)
      (take 5 (annualReports income_newest_first)))"
    unfolding fr by (simp add: income_newest_first_def)
  from calculate_margin_stats_result [OF m2, of "''2025''", unfolded fr yr]
    calculate_margin_stats_total [OF pow_total_exact m2, of "''2025''"]
  obtain m where m:
    "calculate_margin_stats exact_ops demo_float ''2025'' (Some income_newest_first) = Inr (Some m)"
    "margin_annual_years m = [''2022'', ''2023'']"
    by auto
  have doms: "dom (series_value (price_annual_years p) (price_annual_values p))
      \<inter> dom (series_value (eps_annual_years e) (eps_annual_values e)) = {''2024''}"
    by (simp add: dom_series_value p e)
  have sv: "series_value (eps_annual_years e) (eps_annual_values e) ''2024'' = Some 5"
    by (simp add: series_value_def e)
  from calculate_pe_stats_result [of exact_ops p e]
    calculate_pe_stats_total [OF pow_total_exact, of p e]
  obtain q where q: "calculate_pe_stats exact_ops (Some p) (Some e) = Inr (Some q)"
    "pe_annual_years q = [''2024'']"
    by (auto simp: doms sv)
  have s1: "sorted (rev (map (\<lambda>x. entry_year (ee_fiscalDateEnding x))
      (take 5 (annualEarnings eps_newest_first))))"
    by (simp add: eps_newest_first_def earnings_of_def entry_year_def get_or_empty_def)
  have s2: "sorted (rev (map (\<lambda>x. entry_year (ir_fiscalDateEnding x))
      (take 5 (annualReports income_newest_first))))"
    by (simp add: income_newest_first_def report_of_def entry_year_def get_or_empty_def)
  show ?thesis
    using annual_series_invariant
      [of exact_ops demo_float "Some prices_13_months" p eps_newest_first e "''2025''"
        income_newest_first r m "Some e" q]
      p(1,2) e(1,2) r m q s1 s2
    by blast
qed

subsection \<open>The P/E series\<close>

lemma distinct_set_pair:
  assumes "sorted xs" "distinct xs" "set xs = {a, b}" "a < b"
  shows "xs = [a, b :: string]"
proof -
  have "sorted_list_of_set (set xs) = xs"
    using assms(1,2) by (rule sorted_list_of_set.idem_if_sorted_distinct)
  moreover have "sorted_list_of_set (set [a, b]) = [a, b]"
    using assms(4) by (intro sorted_list_of_set.idem_if_sorted_distinct) simp_all
  ultimately show ?thesis
    by (simp add: assms(3))
qed

lemma ttm_of_Some:
  "ttm_of ops pf quarterly \<noteq> None \<longleftrightarrow>
     4 \<le> length quarterly \<and> (\<forall>q \<in> set (take 4 quarterly). safe_float pf (ee_reportedEPS q) \<noteq> None)"
  by (auto simp: ttm_of_def Let_def list_all_iff)

text \<open>
  Claim C4: for a price record and an EPS record (each with as many labels as values),
  \<open>calculate_pe_stats\<close> returns a record unless \<^verbatim>\<open>**\<close> raises \<^verbatim>\<open>OverflowError\<close>. The annual
  P/E series of the record holds, in ascending order and once each, exactly the years present
  in both annual series whose annual EPS compares above zero, each with
  \<^verbatim>\<open>round(price / eps, 2)\<close> of the year-end price and the annual EPS, division and rounding
  those of the floats; the trailing P/E is absent unless the TTM EPS is present and above
  zero, and is then \<^verbatim>\<open>round(current_price / ttm_eps, 2)\<close>; and the TTM EPS of a record of
  \<open>calculate_eps_stats\<close> is absent unless the four most recent quarterly EPS are all present.
\<close>

theorem pe_series_spec:
  "(length (price_annual_years ps) = length (price_annual_values ps)
    \<and> length (eps_annual_years es) = length (eps_annual_values es) \<longrightarrow>
     calculate_pe_stats ops (Some ps) (Some es) = Inl OverflowError
     \<or> (\<exists>r. calculate_pe_stats ops (Some ps) (Some es) = Inr (Some r)
        \<and> sorted (pe_annual_years r) \<and> distinct (pe_annual_years r)
        \<and> set (pe_annual_years r) =
            {y \<in> set (price_annual_years ps) \<inter> set (eps_annual_years es).
               flt ops (flit ops 0) (the (series_value (eps_annual_years es) (eps_annual_values es) y))}
        \<and> pe_annual_values r =
            map (\<lambda>y. fround ops
                  (fdiv ops (the (series_value (price_annual_years ps) (price_annual_values ps) y))
                     (the (series_value (eps_annual_years es) (eps_annual_values es) y))) 2)
              (pe_annual_years r)
        \<and> pe_trailing_pe r =
            (case eps_ttm es of
               None \<Rightarrow> None
             | Some t \<Rightarrow>
                 if flt ops (flit ops 0) t \<and> \<not> feq ops t (flit ops 0)
                    \<and> \<not> feq ops (price_current ps) (flit ops 0)
                 then Some (fround ops (fdiv ops (price_current ps) t) 2) else None)))
   \<and> (pow_total ops \<longrightarrow> calculate_pe_stats ops (Some ps) (Some es) \<noteq> Inl OverflowError)
   \<and> (calculate_eps_stats ops pf (Some d) = Inr (Some e) \<and> eps_ttm e \<noteq> None \<longrightarrow>
        4 \<le> length (quarterlyEarnings d)
        \<and> (\<forall>q \<in> set (take 4 (quarterlyEarnings d)). safe_float pf (ee_reportedEPS q) \<noteq> None))"
proof (intro conjI impI)
  assume len: "length (price_annual_years ps) = length (price_annual_values ps)
    \<and> length (eps_annual_years es) = length (eps_annual_values es)"
  let ?pv = "series_value (price_annual_years ps) (price_annual_values ps)"
  let ?ev = "series_value (eps_annual_years es) (eps_annual_values es)"
  let ?goal = "\<lambda>r. calculate_pe_stats ops (Some ps) (Some es) = Inr (Some r)
        \<and> sorted (pe_annual_years r) \<and> distinct (pe_annual_years r)
        \<and> set (pe_annual_years r) =
            {y \<in> set (price_annual_years ps) \<inter> set (eps_annual_years es).
               flt ops (flit ops 0) (the (?ev y))}
        \<and> pe_annual_values r =
            map (\<lambda>y. fround ops (fdiv ops (the (?pv y)) (the (?ev y))) 2) (pe_annual_years r)
        \<and> pe_trailing_pe r =
            (case eps_ttm es of
               None \<Rightarrow> None
             | Some t \<Rightarrow>
                 if flt ops (flit ops 0) t \<and> \<not> feq ops t (flit ops 0)
                    \<and> \<not> feq ops (price_current ps) (flit ops 0)
                 then Some (fround ops (fdiv ops (price_current ps) t) 2) else None)"
  show "calculate_pe_stats ops (Some ps) (Some es) = Inl OverflowError \<or> (\<exists>r. ?goal r)"
  proof (cases "calculate_pe_stats ops (Some ps) (Some es) = Inl OverflowError")
    case True
    then show ?thesis by (rule disjI1)
  next
    case False
    with calculate_pe_stats_result [of ops ps es]
    obtain r where r: "calculate_pe_stats ops (Some ps) (Some es) = Inr (Some r)"
      "pe_trailing_pe r = trailing_pe_of ops (price_current ps) (eps_ttm es)"
      "pe_annual_years r =
         filter (\<lambda>y. is_positive ops (the (?ev y))) (sorted_list_of_set (dom ?pv \<inter> dom ?ev))"
      "pe_annual_values r =
         map (\<lambda>y. fround ops (fdiv ops (the (?pv y)) (the (?ev y))) 2) (pe_annual_years r)"
      by blast
    have fin: "finite (dom ?pv \<inter> dom ?ev)"
      by (simp add: series_value_eq finite_dom_map_of)
    have doms: "dom ?pv = set (price_annual_years ps)" "dom ?ev = set (eps_annual_years es)"
      using len by (simp_all add: dom_series_value)
    have "sorted (pe_annual_years r)"
      unfolding r(3)
      using sorted_filter [of id "sorted_list_of_set (dom ?pv \<inter> dom ?ev)"] by simp
    moreover have "distinct (pe_annual_years r)"
      unfolding r(3) by simp
    moreover have "set (pe_annual_years r) =
        {y \<in> set (price_annual_years ps) \<inter> set (eps_annual_years es).
           flt ops (flit ops 0) (the (?ev y))}"
      unfolding r(3) using fin by (auto simp: doms is_positive_def)
    moreover have "pe_trailing_pe r =
        (case eps_ttm es of
           None \<Rightarrow> None
         | Some t \<Rightarrow>
             if flt ops (flit ops 0) t \<and> \<not> feq ops t (flit ops 0)
                \<and> \<not> feq ops (price_current ps) (flit ops 0)
             then Some (fround ops (fdiv ops (price_current ps) t) 2) else None)"
      unfolding r(2)
      by (auto simp: trailing_pe_of_def is_positive_def is_zero_def split: option.splits)
    ultimately have "?goal r"
      using r(1,4) by blast
    then show ?thesis
      by blast
  qed
next
  assume "pow_total ops"
  then show "calculate_pe_stats ops (Some ps) (Some es) \<noteq> Inl OverflowError"
    by (rule calculate_pe_stats_total)
next
  assume a: "calculate_eps_stats ops pf (Some d) = Inr (Some e) \<and> eps_ttm e \<noteq> None"
  then have "eps_ttm e = ttm_of ops pf (quarterlyEarnings d)"
    by (auto elim!: calculate_eps_stats_Some)
  with a have "ttm_of ops pf (quarterlyEarnings d) \<noteq> None"
    by simp
  then have t: "4 \<le> length (quarterlyEarnings d)
    \<and> (\<forall>q \<in> set (take 4 (quarterlyEarnings d)). safe_float pf (ee_reportedEPS q) \<noteq> None)"
    unfolding ttm_of_Some .
  from t show "4 \<le> length (quarterlyEarnings d)"
    by (rule conjunct1)
  from t show "\<forall>q \<in> set (take 4 (quarterlyEarnings d)). safe_float pf (ee_reportedEPS q) \<noteq> None"
    by (rule conjunct2)
qed

lemma py_round_examples:
  "py_round (100 / 3) 2 = 3333 / 100" "py_round 30 2 = 30"
  "py_round (130 / 3) 2 = 4333 / 100" "py_round (688 / 125) 2 = 11 / 2"
  by (simp_all add: py_round_def round_half_even_def)

theorem pe_series_spec_witness:
  "(\<exists>r. calculate_pe_stats exact_ops (Some example_price_stats) (Some example_eps_stats)
        = Inr (Some r)
      \<and> pe_annual_years r = [''2020'', ''2021'']
      \<and> pe_annual_values r = [3333 / 100, 30]
      \<and> pe_trailing_pe r = Some (4333 / 100))
   \<and> (\<exists>e. calculate_eps_stats exact_ops demo_float (Some eps_four_quarters) = Inr (Some e)
      \<and> eps_ttm e = Some (11 / 2)
      \<and> length (quarterlyEarnings eps_four_quarters) = 4)"
proof -
  have sv: "series_value [''2020'', ''2021'', ''2022''] [3, 5, - 1 :: real] ''2020'' = Some 3"
    "series_value [''2020'', ''2021'', ''2022''] [3, 5, - 1 :: real] ''2021'' = Some 5"
    "series_value [''2020'', ''2021'', ''2022''] [3, 5, - 1 :: real] ''2022'' = Some (- 1)"
    "series_value [''2020'', ''2021'', ''2022''] [100, 150, 130 :: real] ''2020'' = Some 100"
    "series_value [''2020'', ''2021'', ''2022''] [100, 150, 130 :: real] ''2021'' = Some 150"
    by (simp_all add: series_value_def)
  have years: "{y \<in> set [''2020'', ''2021'', ''2022''] \<inter> set [''2020'', ''2021'', ''2022''].
      flt exact_ops (flit exact_ops 0)
        (the (series_value [''2020'', ''2021'', ''2022''] [3, 5, - 1 :: real] y))}
      = {''2020'', ''2021''}"
    by (auto simp: sv)
  have f: "price_annual_years example_price_stats = [''2020'', ''2021'', ''2022'']"
    "price_annual_values example_price_stats = [100, 150, 130]"
    "price_current example_price_stats = 130"
    "eps_annual_years example_eps_stats = [''2020'', ''2021'', ''2022'']"
    "eps_annual_values example_eps_stats = [3, 5, - 1]"
    "eps_ttm example_eps_stats = Some 3"
    by (simp_all add: example_price_stats_def example_eps_stats_def)
  note t = pe_series_spec [of example_price_stats example_eps_stats exact_ops]
  from t have ok: "calculate_pe_stats exact_ops (Some example_price_stats) (Some example_eps_stats)
      \<noteq> Inl OverflowError"
    by (simp add: pow_total_exact)
  from t [THEN conjunct1] ok
  have "\<exists>r. calculate_pe_stats exact_ops (Some example_price_stats) (Some example_eps_stats)
        = Inr (Some r)
      \<and> sorted (pe_annual_years r)
      \<and> distinct (pe_annual_years r) \<and> set (pe_annual_years r) = {''2020'', ''2021''}
      \<and> pe_annual_values r =
          map (\<lambda>y. py_round (the (series_value [''2020'', ''2021'', ''2022''] [100, 150, 130] y)
            / the (series_value [''2020'', ''2021'', ''2022''] [3, 5, - 1] y)) 2) (pe_annual_years r)
      \<and> pe_trailing_pe r = Some (4333 / 100)"
    unfolding f years by (simp add: py_round_examples)
  then obtain r where r:
    "calculate_pe_stats exact_ops (Some example_price_stats) (Some example_eps_stats) = Inr (Some r)"
    "sorted (pe_annual_years r)"
    "distinct (pe_annual_years r)" "set (pe_annual_years r) = {''2020'', ''2021''}"
    "pe_annual_values r =
       map (\<lambda>y. py_round (the (series_value [''2020'', ''2021'', ''2022''] [100, 150, 130] y)
          / the (series_value [''2020'', ''2021'', ''2022''] [3, 5, - 1] y)) 2) (pe_annual_years r)"
    "pe_trailing_pe r = Some (4333 / 100)"
    by blast
  have y: "pe_annual_years r = [''2020'', ''2021'']"
    using r(2,3,4) by (rule distinct_set_pair) simp
  have first: "\<exists>r. calculate_pe_stats exact_ops (Some example_price_stats) (Some example_eps_stats)
        = Inr (Some r)
      \<and> pe_annual_years r = [''2020'', ''2021''] \<and> pe_annual_values r = [3333 / 100, 30]
      \<and> pe_trailing_pe r = Some (4333 / 100)"
    using r(1,5,6) y by (auto simp: sv py_round_examples)
  have q: "2 \<le> length (quarterlyEarnings eps_four_quarters)"
    "safe_float demo_float (ee_reportedEPS (quarterlyEarnings eps_four_quarters ! 0)) = Some (3 / 2)"
    by (simp_all add: eps_four_quarters_def demo_quarters)
  have "ttm_of exact_ops demo_float (quarterlyEarnings eps_four_quarters) = Some (11 / 2)"
    by (simp add: ttm_of_def eps_four_quarters_def earnings_of_def safe_float_def demo_float_def
        py_round_examples del: not_None_eq)
  with calculate_eps_stats_exact [OF q]
  obtain e where e: "calculate_eps_stats exact_ops demo_float (Some eps_four_quarters) = Inr (Some e)"
    "eps_ttm e = Some (11 / 2)"
    by auto
  from pe_series_spec [THEN conjunct2, THEN conjunct2, of exact_ops demo_float eps_four_quarters e] e
  have "4 \<le> length (quarterlyEarnings eps_four_quarters)"
    by simp
  then have "length (quarterlyEarnings eps_four_quarters) = 4"
    by (simp add: eps_four_quarters_def)
  with first e show ?thesis by blast
qed

subsection \<open>Formatting\<close>

lemma digit_char_digit: "d < 10 \<Longrightarrow> digit_char d \<in> set ''0123456789''"
  unfolding digit_char_def by (rule nth_mem) simp

lemma nat_digits_digits: "set (nat_digits k) \<subseteq> set ''0123456789''"
proof (induction k rule: nat_digits.induct)
  case (1 n)
  show ?case
  proof (cases "n < 10")
    case True
    then show ?thesis
      using digit_char_digit [of n] by (subst nat_digits.simps) simp
  next
    case False
    have "n mod 10 < 10" by simp
    from digit_char_digit [OF this] 1 [OF False] False show ?thesis
      by (subst nat_digits.simps) simp
  qed
qed

lemma length_nat_digits: "k < 10 ^ n \<Longrightarrow> 0 < n \<Longrightarrow> length (nat_digits k) \<le> n"
proof (induction k arbitrary: n rule: nat_digits.induct)
  case (1 k)
  show ?case
  proof (cases "k < 10")
    case True
    with 1(3) show ?thesis
      by (subst nat_digits.simps) simp
  next
    case False
    then obtain m where n: "n = Suc m"
      using 1(3) by (cases n) auto
    with False 1(2) have "0 < m"
      by (cases m) auto
    moreover have "k div 10 < 10 ^ m"
      using 1(2) n by (simp add: less_mult_imp_div_less mult.commute)
    ultimately have "length (nat_digits (k div 10)) \<le> m"
      using 1(1) [OF False] by simp
    with False n show ?thesis
      by (subst nat_digits.simps) simp
  qed
qed

lemma zero_pad_shape:
  assumes "length s \<le> n" "set s \<subseteq> set ''0123456789''"
  shows "length (zero_pad n s) = n" "set (zero_pad n s) \<subseteq> set ''0123456789''"
  using assms by (auto simp: zero_pad_def)

lemma group3_chars: "set (group3 ds) \<subseteq> set ds \<union> {CHR '',''}"
proof (induction ds rule: group3.induct)
  case (1 ds)
  show ?case
  proof (cases "length ds \<le> 3")
    case True
    then show ?thesis by (subst group3.simps) auto
  next
    case False
    have "set (take (length ds - 3) ds) \<subseteq> set ds" "set (drop (length ds - 3) ds) \<subseteq> set ds"
      by (auto dest: in_set_takeD in_set_dropD)
    with 1 [OF False] False show ?thesis
      by (subst group3.simps) auto
  qed
qed

lemma no_point_in_digits: "set s \<subseteq> set ''0123456789'' \<union> {CHR '',''} \<Longrightarrow> CHR ''.'' \<notin> set s"
  by auto


lemma decimals_point:
  assumes "CHR ''.'' \<notin> set fp"
  shows "decimals (ip @ ''.'' @ fp) = length fp"
proof -
  have "takeWhile (\<lambda>c. c \<noteq> CHR ''.'') (rev fp @ CHR ''.'' # rev ip) = rev fp"
    using assms by (auto simp: takeWhile_tail)
  then show ?thesis
    by (simp add: decimals_def)
qed

lemma decimals_format_fixed: "decimals (format_fixed grouped n x) = n"
proof (cases "n = 0")
  case True
  let ?ds = "nat_digits (nat \<bar>round_half_even (x * 10 ^ n)\<bar> div 10 ^ n)"
  have "set ?ds \<subseteq> set ''0123456789''"
    by (rule nat_digits_digits)
  moreover have "set (group3 ?ds) \<subseteq> set ?ds \<union> {CHR '',''}"
    by (rule group3_chars)
  ultimately have "CHR ''.'' \<notin> set (format_fixed grouped n x)"
    using True by (auto simp: format_fixed_def Let_def)
  with True show ?thesis
    by (simp add: decimals_def)
next
  case False
  let ?scaled = "nat \<bar>round_half_even (x * 10 ^ n)\<bar>"
  let ?fp = "zero_pad n (nat_digits (?scaled mod 10 ^ n))"
  let ?ip = "(if x < 0 then ''-'' else [])
      @ (if grouped then group3 (nat_digits (?scaled div 10 ^ n))
         else nat_digits (?scaled div 10 ^ n))"
  have "length (nat_digits (?scaled mod 10 ^ n)) \<le> n"
    using False by (intro length_nat_digits) simp_all
  from zero_pad_shape [OF this nat_digits_digits]
  have fp: "length ?fp = n" "CHR ''.'' \<notin> set ?fp"
    by auto
  have "format_fixed grouped n x = ?ip @ ''.'' @ ?fp"
    using False by (simp add: format_fixed_def Let_def)
  with decimals_point [OF fp(2), of ?ip] fp(1) show ?thesis
    by simp
qed

text \<open>
  Claim C6, as stated, fails at the two thresholds: a value of magnitude exactly \<open>1e6\<close> is not
  above \<open>1e6\<close>, yet it is printed in millions, not as whole dollars; a value of magnitude
  exactly \<open>1e9\<close> is printed in billions, not in millions.
\<close>

theorem fmt_val_threshold_counterexample:
  "fmt_val demo_str (Some 1000000) ''dollars_large'' False = ''$1.0M''
   \<and> fmt_val demo_str (Some 1000000000) ''dollars_large'' False = ''$1.00B''"
  by (simp add: fmt_val_def format_fixed_def round_half_even_def zero_pad_def digit_char_def nat_digits.simps group3.simps)

text \<open>
  Claim C6, amended: \<open>fmt_val\<close> prints \<open>None\<close> as the em dash for every unit; for the unit
  \<open>dollars_large\<close> it prints, after the sign prefix of a positive delta and the dollar sign, a
  value of magnitude at least \<open>1e9\<close> in billions with two decimals and the suffix \<open>B\<close>, a
  value of magnitude at least \<open>1e6\<close> in millions with one decimal and the suffix \<open>M\<close>, and
  any other value in whole dollars with no decimals; so 1500000000 gives \<open>$1.50B\<close>, 2500000
  gives \<open>$2.5M\<close>, and \<open>None\<close> with the unit \<open>percent\<close> gives the em dash.
\<close>

theorem fmt_val_dollars_large:
  "fmt_val pystr None unit is_delta = em_dash
   \<and> fmt_val pystr (Some v) ''dollars_large'' is_delta =
       (if is_delta \<and> 0 < v then ''+'' else []) @ ''$'' @
       (if 1000000000 \<le> \<bar>v\<bar> then format_fixed True 2 (v / 1000000000) @ ''B''
        else if 1000000 \<le> \<bar>v\<bar> then format_fixed True 1 (v / 1000000) @ ''M''
        else format_fixed True 0 v)
   \<and> decimals (format_fixed True 2 (v / 1000000000)) = 2
   \<and> decimals (format_fixed True 1 (v / 1000000)) = 1
   \<and> decimals (format_fixed True 0 v) = 0
   \<and> fmt_val pystr (Some 1500000000) ''dollars_large'' False = ''$1.50B''
   \<and> fmt_val pystr (Some 2500000) ''dollars_large'' False = ''$2.5M''
   \<and> fmt_val pystr None ''percent'' False = em_dash"
proof -
  have "fmt_val pystr (Some 1500000000) ''dollars_large'' False = ''$1.50B''"
    "fmt_val pystr (Some 2500000) ''dollars_large'' False = ''$2.5M''"
    by (simp_all add: fmt_val_def format_fixed_def round_half_even_def zero_pad_def digit_char_def nat_digits.simps group3.simps)
  moreover have "fmt_val pystr (Some v) ''dollars_large'' is_delta =
       (if is_delta \<and> 0 < v then ''+'' else []) @ ''$'' @
       (if 1000000000 \<le> \<bar>v\<bar> then format_fixed True 2 (v / 1000000000) @ ''B''
        else if 1000000 \<le> \<bar>v\<bar> then format_fixed True 1 (v / 1000000) @ ''M''
        else format_fixed True 0 v)"
    by (auto simp: fmt_val_def Let_def)
  moreover have "fmt_val pystr None u d = em_dash" for u d
    by (simp add: fmt_val_def)
  ultimately show ?thesis
    by (simp only: decimals_format_fixed simp_thms)
qed

theorem fmt_val_dollars_large_witness:
  "fmt_val demo_str (Some 1234567890) ''dollars_large'' True = ''+$1.23B''
   \<and> fmt_val demo_str (Some (- 2500000)) ''dollars_large'' True = ''$-2.5M''
   \<and> fmt_val demo_str (Some 999999) ''dollars_large'' False = ''$999,999''
   \<and> fmt_val demo_str None ''dollars_large'' True
       = [char_of (226 :: nat), char_of (128 :: nat), char_of (148 :: nat)]"
  using fmt_val_dollars_large [of demo_str "''dollars_large''" True 1234567890]
    fmt_val_dollars_large [of demo_str "''dollars_large''" True "- 2500000"]
    fmt_val_dollars_large [of demo_str "''dollars_large''" False 999999]
  by (simp add: format_fixed_def round_half_even_def zero_pad_def digit_char_def nat_digits.simps group3.simps em_dash_def)

end
